theory Spec2Isabelle
  imports Main "HOL-Library.Sublist"
begin

section \<open>The page as the script sees it\<close>

text \<open>
  \<^verbatim>\<open>script.js\<close> is one immediately invoked function: it looks eight things up in the
  document, registers event listeners, patches the footer once, and returns. Everything
  afterwards happens in the listeners. The model has
  \<^item> a store of elements, addressed by \<open>node\<close>, holding the four properties the script
    reads or writes (\<open>classList\<close>, \<open>style.animation\<close>, \<open>style.boxShadow\<close>,
    \<open>innerHTML\<close>);
  \<^item> the answers of the browser to the script's lookups (\<open>page\<close>): a lookup of one
    element is a \<open>node option\<close> (\<open>None\<close> is JavaScript's \<open>null\<close>), a
    \<open>querySelectorAll\<close> is a \<open>node list\<close>;
  \<^item> the listener table built by \<open>addEventListener\<close>;
  \<^item> errors as values: a property access on \<open>null\<close> is \<open>Inl TypeError\<close>.
\<close>

type_synonym node = nat

text \<open>
  The values \<open>style.boxShadow\<close> takes. The script assigns three texts:
  \<^item> \<open>Dynamic x y w h\<close>: the template of line 143,
    \<^verbatim>\<open>${8 + x/w*10}px ${8 + y/h*10}px 0 #2c2c2c, 16px 16px 20px rgba(0,0,0,0.3)\<close>,
    kept as the four numbers it is computed from (the offsets are floating point), for
    \<open>w\<close> and \<open>h\<close> other than 0;
  \<^item> \<open>Rest\<close>: \<^verbatim>\<open>12px 12px 0 #2c2c2c, 16px 16px 20px rgba(0,0,0,0.3)\<close> (line 148);
  \<^item> \<open>Touch\<close>: \<^verbatim>\<open>8px 8px 0 #2c2c2c, 12px 12px 20px rgba(0,0,0,0.2)\<close> (line 211).
  \<open>Inline s\<close> is whatever the markup had before the script ran.
\<close>

datatype shadow = Inline string | Dynamic int int int int | Rest | Touch

record element =
  classList :: "string list"
  animation :: string
  boxShadow :: shadow
  innerHTML :: string

datatype error = TypeError

datatype target = Window | Elem node

datatype evtype = Click | MouseMove | MouseLeave | Resize | DOMContentLoaded

text \<open>
  One constructor for each function expression of the script that is passed to
  \<open>addEventListener\<close> or \<open>removeEventListener\<close>. Listeners are compared by identity
  in the browser; two different function expressions are never the same listener.
  \<open>EmptyFn\<close> is the \<^verbatim>\<open>function() {}\<close> of line 206.
\<close>

datatype handler =
    MobileBtnClick
  | NavLinkClick
  | MobileNavLinkClick
  | DeliveryBtnClick
  | HeroMouseMove
  | HeroMouseLeave
  | WindowResize
  | FranchiseBtnClick
  | EmptyFn
  | WindowDOMContentLoaded

datatype dialog = OrderReceived | FranchiseInquiry

record state =
  elems :: "node \<Rightarrow> element"
  listeners :: "(target \<times> evtype \<times> handler) list"
  alerts :: "dialog list"

text \<open>
  The lookups of lines 31 to 38, the two capability tests (lines 136 and 203), the clock
  (line 162) and the lookup the load handler makes (line 230).
\<close>

record page =
  mobileBtn :: "node option"
  mobileMenu :: "node option"
  navLinks :: "node list"
  mobileNavLinks :: "node list"
  deliveryBtns :: "node list"
  heroDiv :: "node option"
  footerYearSpan :: "node option"
  franchiseBtn :: "node option"
  hoverMatches :: bool
  ontouchstart :: bool
  currentYear :: int
  homeLink :: "node option"

text \<open>
  An event as it arrives at the element (or window) whose listeners run: its type, the
  target the listeners are looked up on (\<open>this\<close> inside them), the pointer position
  (\<open>e.clientX\<close>, \<open>e.clientY\<close>) and the window's \<open>innerWidth\<close> and
  \<open>innerHeight\<close> at that moment.
\<close>

record event =
  etype :: evtype
  etarget :: target
  clientX :: int
  clientY :: int
  innerWidth :: int
  innerHeight :: int

definition click_on :: "node \<Rightarrow> event" where
  "click_on n =
     \<lparr>etype = Click, etarget = Elem n, clientX = 0, clientY = 0,
      innerWidth = 0, innerHeight = 0\<rparr>"

definition resize_to :: "int \<Rightarrow> event" where
  "resize_to w =
     \<lparr>etype = Resize, etarget = Window, clientX = 0, clientY = 0,
      innerWidth = w, innerHeight = 0\<rparr>"

definition content_loaded :: event where
  "content_loaded =
     \<lparr>etype = DOMContentLoaded, etarget = Window, clientX = 0, clientY = 0,
      innerWidth = 0, innerHeight = 0\<rparr>"

section \<open>DOM primitives\<close>

text \<open>A \<open>DOMTokenList\<close> keeps its tokens in order and without repetition.\<close>

definition tokens_add :: "string \<Rightarrow> string list \<Rightarrow> string list" where
  "tokens_add c cl = (if c \<in> set cl then cl else cl @ [c])"

definition tokens_remove :: "string \<Rightarrow> string list \<Rightarrow> string list" where
  "tokens_remove c cl = removeAll c cl"

definition tokens_toggle :: "string \<Rightarrow> string list \<Rightarrow> string list" where
  "tokens_toggle c cl = (if c \<in> set cl then removeAll c cl else cl @ [c])"

definition update_elem :: "node \<Rightarrow> (element \<Rightarrow> element) \<Rightarrow> state \<Rightarrow> state" where
  "update_elem n f s = s\<lparr>elems := (elems s)(n := f (elems s n))\<rparr>"

definition classList_contains :: "node \<Rightarrow> string \<Rightarrow> state \<Rightarrow> bool" where
  "classList_contains n c s = (c \<in> set (classList (elems s n)))"

definition classList_add :: "node \<Rightarrow> string \<Rightarrow> state \<Rightarrow> state" where
  "classList_add n c s = update_elem n (\<lambda>e. e\<lparr>classList := tokens_add c (classList e)\<rparr>) s"

definition classList_remove :: "node \<Rightarrow> string \<Rightarrow> state \<Rightarrow> state" where
  "classList_remove n c s =
     update_elem n (\<lambda>e. e\<lparr>classList := tokens_remove c (classList e)\<rparr>) s"

definition classList_toggle :: "node \<Rightarrow> string \<Rightarrow> state \<Rightarrow> state" where
  "classList_toggle n c s =
     update_elem n (\<lambda>e. e\<lparr>classList := tokens_toggle c (classList e)\<rparr>) s"

definition set_animation :: "node \<Rightarrow> string \<Rightarrow> state \<Rightarrow> state" where
  "set_animation n v s = update_elem n (\<lambda>e. e\<lparr>animation := v\<rparr>) s"

definition set_boxShadow :: "node \<Rightarrow> shadow \<Rightarrow> state \<Rightarrow> state" where
  "set_boxShadow n v s = update_elem n (\<lambda>e. e\<lparr>boxShadow := v\<rparr>) s"

definition set_innerHTML :: "node \<Rightarrow> string \<Rightarrow> state \<Rightarrow> state" where
  "set_innerHTML n v s = update_elem n (\<lambda>e. e\<lparr>innerHTML := v\<rparr>) s"

definition addEventListener :: "target \<Rightarrow> evtype \<Rightarrow> handler \<Rightarrow> state \<Rightarrow> state" where
  "addEventListener t ty h s = s\<lparr>listeners := listeners s @ [(t, ty, h)]\<rparr>"

definition removeEventListener :: "target \<Rightarrow> evtype \<Rightarrow> handler \<Rightarrow> state \<Rightarrow> state" where
  "removeEventListener t ty h s = s\<lparr>listeners := removeAll (t, ty, h) (listeners s)\<rparr>"

definition alert :: "dialog \<Rightarrow> state \<Rightarrow> state" where
  "alert d s = s\<lparr>alerts := alerts s @ [d]\<rparr>"

text \<open>
  Using a looked-up element: \<open>null.classList\<close> and the like throw a TypeError.
\<close>

definition on_elem :: "node option \<Rightarrow> (node \<Rightarrow> state \<Rightarrow> state) \<Rightarrow> state \<Rightarrow> error + state" where
  "on_elem r f s = (case r of None \<Rightarrow> Inl TypeError | Some n \<Rightarrow> Inr (f n s))"

definition on_this :: "target \<Rightarrow> (node \<Rightarrow> state \<Rightarrow> state) \<Rightarrow> state \<Rightarrow> error + state" where
  "on_this t f s = (case t of Window \<Rightarrow> Inl TypeError | Elem n \<Rightarrow> Inr (f n s))"

text \<open>\<open>x && p(x)\<close> for a looked-up element: the right operand runs only when \<open>x\<close> is there.\<close>

definition present_and :: "node option \<Rightarrow> (node \<Rightarrow> bool) \<Rightarrow> bool" where
  "present_and r p = (case r of None \<Rightarrow> False | Some n \<Rightarrow> p n)"

definition then_do :: "error + state \<Rightarrow> (state \<Rightarrow> error + state) \<Rightarrow> error + state" where
  "then_do m f = (case m of Inl e \<Rightarrow> Inl e | Inr s \<Rightarrow> f s)"

section \<open>String.prototype.replace with a string pattern\<close>

text \<open>
  \<open>s.replace(pat, rep)\<close> with a string pattern replaces the first occurrence of \<open>pat\<close>
  only. The replacement is the decimal text of a year, so it has none of the \<open>$\<close>
  patterns.
\<close>

fun replace :: "string \<Rightarrow> string \<Rightarrow> string \<Rightarrow> string" where
  "replace [] pat rep = (if pat = [] then rep else [])"
| "replace (c # cs) pat rep =
     (if prefix pat (c # cs) then rep @ drop (length pat) (c # cs)
      else c # replace cs pat rep)"

function digits :: "nat \<Rightarrow> string" where
  "digits n = (if n < 10 then [''0123456789'' ! n] else digits (n div 10) @ [''0123456789'' ! (n mod 10)])"
  by pat_completeness auto
termination
  by (relation "measure (\<lambda>n. n)") auto

definition number_to_string :: "int \<Rightarrow> string" where
  "number_to_string i = (if i < 0 then CHR ''-'' # digits (nat (- i)) else digits (nat i))"

section \<open>The listeners\<close>

text \<open>Lines 49 to 61: the hamburger button's click listener.\<close>

definition mobileBtn_click :: "page \<Rightarrow> state \<Rightarrow> error + state" where
  "mobileBtn_click pg s =
     then_do (on_elem (mobileMenu pg) (\<lambda>m. classList_toggle m ''hidden'') s) (\<lambda>s1.
       on_elem (mobileMenu pg)
         (\<lambda>m s2. if \<not> classList_contains m ''hidden'' s2
                  then set_animation m ''fadeIn 0.25s ease'' s2
                  else set_animation m '''' s2) s1)"

text \<open>Lines 71 to 75.\<close>

fun removeActiveClass_loop :: "node list \<Rightarrow> state \<Rightarrow> state" where
  "removeActiveClass_loop [] s = s"
| "removeActiveClass_loop (link # links) s =
     removeActiveClass_loop links (classList_remove link ''active-nav'' s)"

definition removeActiveClass :: "page \<Rightarrow> state \<Rightarrow> state" where
  "removeActiveClass pg s = removeActiveClass_loop (navLinks pg) s"

text \<open>Lines 82 to 89; \<open>this\<close> is the element the listener runs on.\<close>

definition navLink_click :: "page \<Rightarrow> target \<Rightarrow> state \<Rightarrow> error + state" where
  "navLink_click pg this s =
     on_this this (\<lambda>l. classList_add l ''active-nav'') (removeActiveClass pg s)"

text \<open>
  Lines 97 to 108. The console line reads \<open>this.textContent\<close> and changes nothing on
  the page.
\<close>

definition mobileNavLink_click :: "page \<Rightarrow> target \<Rightarrow> state \<Rightarrow> error + state" where
  "mobileNavLink_click pg this s =
     then_do
       (if mobileMenu pg \<noteq> None
        then then_do (on_elem (mobileMenu pg) (\<lambda>m. classList_add m ''hidden'') s)
               (on_elem (mobileMenu pg) (\<lambda>m. set_animation m ''''))
        else Inr s)
       (\<lambda>s1. on_this this (\<lambda>l s2. s2) s1)"

text \<open>Lines 120 to 123.\<close>

definition deliveryBtn_click :: "state \<Rightarrow> error + state" where
  "deliveryBtn_click s = Inr (alert OrderReceived s)"

text \<open>
  Lines 137 to 144 and 147 to 149. In a window of width or height 0 the quotient of
  line 139 or 140 is \<open>NaN\<close> or an infinity, the text of line 143 is then no CSS value
  (\<^verbatim>\<open>NaNpx\<close>, \<^verbatim>\<open>Infinitypx\<close>), and the style object keeps the box shadow it had.
\<close>

definition heroDiv_mousemove :: "target \<Rightarrow> int \<Rightarrow> int \<Rightarrow> int \<Rightarrow> int \<Rightarrow> state \<Rightarrow> error + state" where
  "heroDiv_mousemove this x y w h s =
     on_this this
       (\<lambda>n s1. if w = 0 \<or> h = 0 then s1 else set_boxShadow n (Dynamic x y w h) s1) s"

definition heroDiv_mouseleave :: "target \<Rightarrow> state \<Rightarrow> error + state" where
  "heroDiv_mouseleave this s = on_this this (\<lambda>n. set_boxShadow n Rest) s"

text \<open>Lines 173 to 180.\<close>

definition window_resize :: "page \<Rightarrow> int \<Rightarrow> state \<Rightarrow> error + state" where
  "window_resize pg width s =
     (if width \<ge> 768
      then (if present_and (mobileMenu pg) (\<lambda>m. \<not> classList_contains m ''hidden'' s)
            then then_do (on_elem (mobileMenu pg) (\<lambda>m. classList_add m ''hidden'') s)
                   (on_elem (mobileMenu pg) (\<lambda>m. set_animation m ''''))
            else Inr s)
      else Inr s)"

text \<open>Lines 190 to 193.\<close>

definition franchiseBtn_click :: "state \<Rightarrow> error + state" where
  "franchiseBtn_click s = Inr (alert FranchiseInquiry s)"

text \<open>Lines 223 to 237.\<close>

definition window_DOMContentLoaded :: "page \<Rightarrow> state \<Rightarrow> error + state" where
  "window_DOMContentLoaded pg s =
     then_do
       (if present_and (mobileMenu pg) (\<lambda>m. \<not> classList_contains m ''hidden'' s)
        then on_elem (mobileMenu pg) (\<lambda>m. classList_add m ''hidden'') s
        else Inr s)
       (\<lambda>s1. if homeLink pg \<noteq> None
              then on_elem (homeLink pg) (\<lambda>l. classList_add l ''active-nav'')
                     (removeActiveClass pg s1)
              else Inr s1)"

section \<open>The script\<close>

text \<open>A \<open>forEach\<close> that registers one click listener on every element of a list.\<close>

fun forEach_click :: "node list \<Rightarrow> handler \<Rightarrow> state \<Rightarrow> state" where
  "forEach_click [] h s = s"
| "forEach_click (n # ns) h s = forEach_click ns h (addEventListener (Elem n) Click h s)"

text \<open>Lines 48 to 62.\<close>

definition section_mobile_menu :: "page \<Rightarrow> state \<Rightarrow> error + state" where
  "section_mobile_menu pg s =
     (if mobileBtn pg \<noteq> None \<and> mobileMenu pg \<noteq> None
      then on_elem (mobileBtn pg) (\<lambda>b. addEventListener (Elem b) Click MobileBtnClick) s
      else Inr s)"

text \<open>Lines 81 to 90, 96 to 109 and 119 to 124.\<close>

definition section_nav :: "page \<Rightarrow> state \<Rightarrow> error + state" where
  "section_nav pg s = Inr (forEach_click (navLinks pg) NavLinkClick s)"

definition section_mobile_nav :: "page \<Rightarrow> state \<Rightarrow> error + state" where
  "section_mobile_nav pg s = Inr (forEach_click (mobileNavLinks pg) MobileNavLinkClick s)"

definition section_delivery :: "page \<Rightarrow> state \<Rightarrow> error + state" where
  "section_delivery pg s = Inr (forEach_click (deliveryBtns pg) DeliveryBtnClick s)"

text \<open>Lines 134 to 151.\<close>

definition section_hero :: "page \<Rightarrow> state \<Rightarrow> error + state" where
  "section_hero pg s =
     (if heroDiv pg \<noteq> None
      then (if hoverMatches pg
            then then_do
                   (on_elem (heroDiv pg) (\<lambda>h. addEventListener (Elem h) MouseMove HeroMouseMove) s)
                   (on_elem (heroDiv pg) (\<lambda>h. addEventListener (Elem h) MouseLeave HeroMouseLeave))
            else Inr s)
      else Inr s)"

text \<open>Lines 161 to 164.\<close>

definition section_footer :: "page \<Rightarrow> state \<Rightarrow> error + state" where
  "section_footer pg s =
     (if footerYearSpan pg \<noteq> None
      then on_elem (footerYearSpan pg)
             (\<lambda>f s1. set_innerHTML f
                (replace (innerHTML (elems s1 f)) ''2024'' (number_to_string (currentYear pg))) s1) s
      else Inr s)"

text \<open>Lines 173 to 180 (the registration) and 189 to 194.\<close>

definition section_resize :: "page \<Rightarrow> state \<Rightarrow> error + state" where
  "section_resize pg s = Inr (addEventListener Window Resize WindowResize s)"

definition section_franchise :: "page \<Rightarrow> state \<Rightarrow> error + state" where
  "section_franchise pg s =
     (if franchiseBtn pg \<noteq> None
      then on_elem (franchiseBtn pg) (\<lambda>b. addEventListener (Elem b) Click FranchiseBtnClick) s
      else Inr s)"

text \<open>Lines 203 to 213.\<close>

definition section_touch :: "page \<Rightarrow> state \<Rightarrow> error + state" where
  "section_touch pg s =
     (if ontouchstart pg
      then then_do
             (if heroDiv pg \<noteq> None
              then on_elem (heroDiv pg) (\<lambda>h. removeEventListener (Elem h) MouseMove EmptyFn) s
              else Inr s)
             (\<lambda>s1. if heroDiv pg \<noteq> None
                    then on_elem (heroDiv pg) (\<lambda>h. set_boxShadow h Touch) s1
                    else Inr s1)
      else Inr s)"

text \<open>Lines 223 to 237 (the registration).\<close>

definition section_load :: "page \<Rightarrow> state \<Rightarrow> error + state" where
  "section_load pg s = Inr (addEventListener Window DOMContentLoaded WindowDOMContentLoaded s)"

text \<open>
  The whole function of lines 24 to 255, run on a document whose elements are \<open>d\<close>.
  The listener table starts empty: it holds the listeners of this script only.
\<close>

definition script :: "page \<Rightarrow> (node \<Rightarrow> element) \<Rightarrow> error + state" where
  "script pg d =
     then_do (section_mobile_menu pg \<lparr>elems = d, listeners = [], alerts = []\<rparr>) (\<lambda>s.
     then_do (section_nav pg s) (\<lambda>s.
     then_do (section_mobile_nav pg s) (\<lambda>s.
     then_do (section_delivery pg s) (\<lambda>s.
     then_do (section_hero pg s) (\<lambda>s.
     then_do (section_footer pg s) (\<lambda>s.
     then_do (section_resize pg s) (\<lambda>s.
     then_do (section_franchise pg s) (\<lambda>s.
     then_do (section_touch pg s) (\<lambda>s.
     section_load pg s)))))))))"

section \<open>Delivering events\<close>

fun run_handler :: "page \<Rightarrow> handler \<Rightarrow> event \<Rightarrow> state \<Rightarrow> error + state" where
  "run_handler pg MobileBtnClick ev s = mobileBtn_click pg s"
| "run_handler pg NavLinkClick ev s = navLink_click pg (etarget ev) s"
| "run_handler pg MobileNavLinkClick ev s = mobileNavLink_click pg (etarget ev) s"
| "run_handler pg DeliveryBtnClick ev s = deliveryBtn_click s"
| "run_handler pg HeroMouseMove ev s =
     heroDiv_mousemove (etarget ev) (clientX ev) (clientY ev) (innerWidth ev) (innerHeight ev) s"
| "run_handler pg HeroMouseLeave ev s = heroDiv_mouseleave (etarget ev) s"
| "run_handler pg WindowResize ev s = window_resize pg (innerWidth ev) s"
| "run_handler pg FranchiseBtnClick ev s = franchiseBtn_click s"
| "run_handler pg EmptyFn ev s = Inr s"
| "run_handler pg WindowDOMContentLoaded ev s = window_DOMContentLoaded pg s"

text \<open>
  The listeners registered on the event's target for the event's type run in the order
  of their registration. No listener of the script registers or removes one, so the
  table is read once. An error ends the run and is the result. An event is delivered to
  one target: propagation from element to element is left out, and with it
  \<open>e.stopPropagation()\<close>; \<open>e.preventDefault()\<close> and \<open>console.log\<close> change nothing
  of the state kept here.
\<close>

fun run_listeners ::
  "page \<Rightarrow> event \<Rightarrow> (target \<times> evtype \<times> handler) list \<Rightarrow> state \<Rightarrow> error + state" where
  "run_listeners pg ev [] s = Inr s"
| "run_listeners pg ev ((t, ty, h) # ls) s =
     (if t = etarget ev \<and> ty = etype ev
      then then_do (run_handler pg h ev s) (run_listeners pg ev ls)
      else run_listeners pg ev ls s)"

definition dispatch :: "page \<Rightarrow> event \<Rightarrow> state \<Rightarrow> error + state" where
  "dispatch pg ev s = run_listeners pg ev (listeners s) s"

fun run :: "page \<Rightarrow> event list \<Rightarrow> state \<Rightarrow> error + state" where
  "run pg [] s = Inr s"
| "run pg (ev # evs) s = then_do (dispatch pg ev s) (run pg evs)"

section \<open>Reading a result, and a sample page\<close>

text \<open>\<open>returns P r\<close>: the computation \<open>r\<close> ended without an error, in a state with \<open>P\<close>.\<close>

definition returns :: "(state \<Rightarrow> bool) \<Rightarrow> error + state \<Rightarrow> bool" where
  "returns P r = (case r of Inl e \<Rightarrow> False | Inr s \<Rightarrow> P s)"

text \<open>
  A page with every element the script looks for: the hamburger button 10, the menu 11
  (hidden), two desktop links 12 (the home link, active) and 13, two links 14 and 15 inside
  the menu, an order button 16, the hero image 17, the footer paragraph 18 and the
  franchise button 19.
\<close>

definition blank :: element where
  "blank = \<lparr>classList = [], animation = '''', boxShadow = Inline '''', innerHTML = ''''\<rparr>"

definition sample_page :: page where
  "sample_page =
     \<lparr>mobileBtn = Some 10, mobileMenu = Some 11, navLinks = [12, 13], mobileNavLinks = [14, 15],
      deliveryBtns = [16], heroDiv = Some 17, footerYearSpan = Some 18, franchiseBtn = Some 19,
      hoverMatches = True, ontouchstart = False, currentYear = 2026, homeLink = Some 12\<rparr>"

definition sample_doc :: "node \<Rightarrow> element" where
  "sample_doc =
     (\<lambda>n. blank)
       (11 := blank\<lparr>classList := [''mobile-menu'', ''hidden'']\<rparr>,
        12 := blank\<lparr>classList := [''nav-link'', ''active-nav'']\<rparr>,
        13 := blank\<lparr>classList := [''nav-link'']\<rparr>,
        18 := blank\<lparr>innerHTML := ''&copy; 2024 Popper Poi. Est. 2024''\<rparr>)"

text \<open>The same document with the menu open, as one hamburger click leaves it.\<close>

definition open_doc :: "node \<Rightarrow> element" where
  "open_doc =
     sample_doc
       (11 := blank\<lparr>classList := [''mobile-menu''], animation := ''fadeIn 0.25s ease''\<rparr>)"

definition state_of :: "(node \<Rightarrow> element) \<Rightarrow> state" where
  "state_of d = \<lparr>elems = d, listeners = [], alerts = []\<rparr>"

text \<open>
  The state the script leaves behind, written out; \<open>script_eq\<close> below proves that the
  script computes it. \<open>listener_table\<close> is the listener table in the order of
  registration. \<open>patched\<close> is the document after the script: the footer paragraph with
  its year replaced, and the hero image with the touch shadow where \<open>ontouchstart\<close> is
  in the window.
\<close>

definition listener_table :: "page \<Rightarrow> (target \<times> evtype \<times> handler) list" where
  "listener_table pg =
     (case mobileBtn pg of
        None \<Rightarrow> []
      | Some b \<Rightarrow> (case mobileMenu pg of None \<Rightarrow> [] | Some m \<Rightarrow> [(Elem b, Click, MobileBtnClick)]))
     @ map (\<lambda>n. (Elem n, Click, NavLinkClick)) (navLinks pg)
     @ map (\<lambda>n. (Elem n, Click, MobileNavLinkClick)) (mobileNavLinks pg)
     @ map (\<lambda>n. (Elem n, Click, DeliveryBtnClick)) (deliveryBtns pg)
     @ (case heroDiv pg of
          None \<Rightarrow> []
        | Some h \<Rightarrow>
            if hoverMatches pg
            then [(Elem h, MouseMove, HeroMouseMove), (Elem h, MouseLeave, HeroMouseLeave)]
            else [])
     @ [(Window, Resize, WindowResize)]
     @ (case franchiseBtn pg of None \<Rightarrow> [] | Some b \<Rightarrow> [(Elem b, Click, FranchiseBtnClick)])
     @ [(Window, DOMContentLoaded, WindowDOMContentLoaded)]"

definition patched :: "page \<Rightarrow> (node \<Rightarrow> element) \<Rightarrow> node \<Rightarrow> element" where
  "patched pg d n =
     (let e = d n;
          e1 = (if footerYearSpan pg = Some n
                then e\<lparr>innerHTML := replace (innerHTML e) ''2024'' (number_to_string (currentYear pg))\<rparr>
                else e)
      in if ontouchstart pg \<and> heroDiv pg = Some n then e1\<lparr>boxShadow := Touch\<rparr> else e1)"

text \<open>A document in which both desktop links are marked active.\<close>

definition two_active_doc :: "node \<Rightarrow> element" where
  "two_active_doc = sample_doc (13 := blank\<lparr>classList := [''nav-link'', ''active-nav'']\<rparr>)"

text \<open>A document whose menu is shown by the markup, with no inline style.\<close>

definition shown_doc :: "node \<Rightarrow> element" where
  "shown_doc = sample_doc (11 := blank\<lparr>classList := [''mobile-menu'']\<rparr>)"

text \<open>
  What a listener needs in order to run without a TypeError: the hamburger listener uses
  the menu without a test of its own, and the nav link, mobile nav link and hero listeners
  use \<open>this\<close>.
\<close>

fun safe :: "page \<Rightarrow> target \<times> evtype \<times> handler \<Rightarrow> bool" where
  "safe pg (t, ty, MobileBtnClick) = (mobileMenu pg \<noteq> None)"
| "safe pg (t, ty, NavLinkClick) = (t \<noteq> Window)"
| "safe pg (t, ty, MobileNavLinkClick) = (t \<noteq> Window)"
| "safe pg (t, ty, HeroMouseMove) = (t \<noteq> Window)"
| "safe pg (t, ty, HeroMouseLeave) = (t \<noteq> Window)"
| "safe pg (t, ty, h) = True"

text \<open>A page on which every single-element lookup finds nothing.\<close>

definition bare_page :: page where
  "bare_page =
     sample_page\<lparr>mobileBtn := None, mobileMenu := None, heroDiv := None,
       footerYearSpan := None, franchiseBtn := None, homeLink := None\<rparr>"

text \<open>
  The event types on which the listeners of one component, given by its handlers, are
  registered.
\<close>

definition event_types :: "handler list \<Rightarrow> state \<Rightarrow> evtype list" where
  "event_types hs s =
     remdups (map (fst \<circ> snd) (filter (\<lambda>l. snd (snd l) \<in> set hs) (listeners s)))"

section \<open>Basic facts\<close>

lemma then_do_simps [simp]:
  "then_do (Inr s) f = f s"
  "then_do (Inl e) f = Inl e"
  by (simp_all add: then_do_def)

lemma then_do_Inr_right [simp]: "then_do m Inr = m" "then_do m (\<lambda>s. Inr s) = m"
  by (cases m; simp)+

lemma returns_Inr: "returns P (Inr s) = P s"
  by (simp add: returns_def)

lemma on_elem_simps [simp]:
  "on_elem (Some n) f s = Inr (f n s)"
  "on_elem None f s = Inl TypeError"
  by (simp_all add: on_elem_def)

lemma on_this_simps [simp]:
  "on_this (Elem n) f s = Inr (f n s)"
  "on_this Window f s = Inl TypeError"
  by (simp_all add: on_this_def)

lemma present_and_simps [simp]:
  "present_and (Some n) p = p n"
  "present_and None p = False"
  by (simp_all add: present_and_def)

lemma update_elem_simps [simp]:
  "elems (update_elem n f s) = (elems s)(n := f (elems s n))"
  "listeners (update_elem n f s) = listeners s"
  "alerts (update_elem n f s) = alerts s"
  by (simp_all add: update_elem_def)

lemmas prim_defs = classList_contains_def classList_add_def classList_remove_def
  classList_toggle_def set_animation_def set_boxShadow_def set_innerHTML_def
  tokens_add_def tokens_remove_def tokens_toggle_def

lemma state_eqI:
  "elems s = elems t \<Longrightarrow> listeners s = listeners t \<Longrightarrow> alerts s = alerts t \<Longrightarrow> (s::state) = t"
  by simp

lemma then_do_Inr_iff:
  "then_do m f = Inr s' \<longleftrightarrow> (\<exists>s1. m = Inr s1 \<and> f s1 = Inr s')"
  by (cases m) simp_all

subsection \<open>removeActiveClass\<close>

lemma removeActiveClass_loop_listeners [simp]:
  "listeners (removeActiveClass_loop ls s) = listeners s"
  by (induction ls arbitrary: s) (simp_all add: classList_remove_def)

lemma removeActiveClass_loop_alerts [simp]:
  "alerts (removeActiveClass_loop ls s) = alerts s"
  by (induction ls arbitrary: s) (simp_all add: classList_remove_def)

lemma removeActiveClass_loop_elems:
  "elems (removeActiveClass_loop ls s) n =
     (if n \<in> set ls
      then (elems s n)\<lparr>classList := removeAll ''active-nav'' (classList (elems s n))\<rparr>
      else elems s n)"
  by (induction ls arbitrary: s) (auto simp: classList_remove_def tokens_remove_def)

lemma removeActiveClass_elems:
  "elems (removeActiveClass pg s) n =
     (if n \<in> set (navLinks pg)
      then (elems s n)\<lparr>classList := removeAll ''active-nav'' (classList (elems s n))\<rparr>
      else elems s n)"
  by (simp add: removeActiveClass_def removeActiveClass_loop_elems)

lemma removeActiveClass_listeners [simp]:
  "listeners (removeActiveClass pg s) = listeners s"
  "alerts (removeActiveClass pg s) = alerts s"
  by (simp_all add: removeActiveClass_def)

subsection \<open>What a listener leaves alone\<close>

lemmas handler_defs = mobileBtn_click_def navLink_click_def mobileNavLink_click_def
  deliveryBtn_click_def heroDiv_mousemove_def heroDiv_mouseleave_def window_resize_def
  franchiseBtn_click_def window_DOMContentLoaded_def

lemma prim_listeners [simp]:
  "listeners (classList_add n c s) = listeners s"
  "listeners (classList_remove n c s) = listeners s"
  "listeners (classList_toggle n c s) = listeners s"
  "listeners (set_animation n v s) = listeners s"
  "listeners (set_boxShadow n b s) = listeners s"
  "listeners (set_innerHTML n v s) = listeners s"
  "listeners (alert d s) = listeners s"
  by (simp_all add: prim_defs alert_def)

lemma prim_innerHTML [simp]:
  "innerHTML (elems (classList_add n c s) k) = innerHTML (elems s k)"
  "innerHTML (elems (classList_remove n c s) k) = innerHTML (elems s k)"
  "innerHTML (elems (classList_toggle n c s) k) = innerHTML (elems s k)"
  "innerHTML (elems (set_animation n v s) k) = innerHTML (elems s k)"
  "innerHTML (elems (set_boxShadow n b s) k) = innerHTML (elems s k)"
  "innerHTML (elems (alert d s) k) = innerHTML (elems s k)"
  by (simp_all add: prim_defs alert_def)

lemma removeActiveClass_innerHTML [simp]:
  "innerHTML (elems (removeActiveClass pg s) k) = innerHTML (elems s k)"
  by (simp add: removeActiveClass_elems)

lemma run_handler_keep:
  "run_handler pg h ev s = Inr s' \<Longrightarrow>
     listeners s' = listeners s \<and> innerHTML (elems s' n) = innerHTML (elems s n)"
proof (cases h)
  case MobileBtnClick
  assume "run_handler pg h ev s = Inr s'"
  with MobileBtnClick show ?thesis
    by (cases "mobileMenu pg") (auto simp: mobileBtn_click_def split: if_splits)
next
  case NavLinkClick
  assume "run_handler pg h ev s = Inr s'"
  with NavLinkClick show ?thesis
    by (cases "etarget ev") (auto simp: navLink_click_def)
next
  case MobileNavLinkClick
  assume "run_handler pg h ev s = Inr s'"
  with MobileNavLinkClick show ?thesis
    by (cases "mobileMenu pg"; cases "etarget ev") (auto simp: mobileNavLink_click_def)
next
  case DeliveryBtnClick
  assume "run_handler pg h ev s = Inr s'"
  with DeliveryBtnClick show ?thesis
    by (auto simp: deliveryBtn_click_def)
next
  case HeroMouseMove
  assume "run_handler pg h ev s = Inr s'"
  with HeroMouseMove show ?thesis
    by (cases "etarget ev") (auto simp: heroDiv_mousemove_def)
next
  case HeroMouseLeave
  assume "run_handler pg h ev s = Inr s'"
  with HeroMouseLeave show ?thesis
    by (cases "etarget ev") (auto simp: heroDiv_mouseleave_def)
next
  case WindowResize
  assume "run_handler pg h ev s = Inr s'"
  with WindowResize show ?thesis
    by (cases "mobileMenu pg") (auto simp: window_resize_def split: if_splits)
next
  case FranchiseBtnClick
  assume "run_handler pg h ev s = Inr s'"
  with FranchiseBtnClick show ?thesis
    by (auto simp: franchiseBtn_click_def)
next
  case EmptyFn
  assume "run_handler pg h ev s = Inr s'"
  with EmptyFn show ?thesis by simp
next
  case WindowDOMContentLoaded
  assume "run_handler pg h ev s = Inr s'"
  with WindowDOMContentLoaded show ?thesis
    by (cases "mobileMenu pg"; cases "homeLink pg")
       (auto simp: window_DOMContentLoaded_def split: if_splits)
qed


lemma run_listeners_keep:
  "run_listeners pg ev ls s = Inr s' \<Longrightarrow>
     listeners s' = listeners s \<and> innerHTML (elems s' n) = innerHTML (elems s n)"
proof (induction ls arbitrary: s)
  case Nil
  then show ?case by simp
next
  case (Cons l ls)
  obtain t ty h where l: "l = (t, ty, h)" by (cases l)
  show ?case
  proof (cases "t = etarget ev \<and> ty = etype ev")
    case True
    with Cons.prems l obtain s1 where
      s1: "run_handler pg h ev s = Inr s1" and rest: "run_listeners pg ev ls s1 = Inr s'"
      by (auto simp: then_do_Inr_iff)
    from Cons.IH [OF rest] run_handler_keep [OF s1]
    show ?thesis by simp
  next
    case False
    with Cons.prems l have "run_listeners pg ev ls s = Inr s'" by auto
    from Cons.IH [OF this] show ?thesis .
  qed
qed

lemma dispatch_keep:
  "dispatch pg ev s = Inr s' \<Longrightarrow>
     listeners s' = listeners s \<and> innerHTML (elems s' n) = innerHTML (elems s n)"
  unfolding dispatch_def by (rule run_listeners_keep)

lemma run_keep:
  "run pg evs s = Inr s' \<Longrightarrow>
     listeners s' = listeners s \<and> innerHTML (elems s' n) = innerHTML (elems s n)"
proof (induction evs arbitrary: s)
  case Nil
  then show ?case by simp
next
  case (Cons ev evs)
  then obtain s1 where s1: "dispatch pg ev s = Inr s1" and rest: "run pg evs s1 = Inr s'"
    by (auto simp: then_do_Inr_iff)
  from Cons.IH [OF rest] dispatch_keep [OF s1] show ?case by simp
qed

subsection \<open>What the script leaves behind\<close>

lemma forEach_click_eq:
  "forEach_click ns h s = s\<lparr>listeners := listeners s @ map (\<lambda>n. (Elem n, Click, h)) ns\<rparr>"
  by (induction ns arbitrary: s) (simp_all add: addEventListener_def)

lemma section_mobile_menu_eq:
  "section_mobile_menu pg s =
     Inr (s\<lparr>listeners := listeners s @
        (case mobileBtn pg of
           None \<Rightarrow> []
         | Some b \<Rightarrow> (case mobileMenu pg of None \<Rightarrow> [] | Some m \<Rightarrow> [(Elem b, Click, MobileBtnClick)]))\<rparr>)"
  by (cases "mobileBtn pg"; cases "mobileMenu pg")
     (simp_all add: section_mobile_menu_def addEventListener_def)

lemma section_hero_eq:
  "section_hero pg s =
     Inr (s\<lparr>listeners := listeners s @
        (case heroDiv pg of
           None \<Rightarrow> []
         | Some h \<Rightarrow>
             if hoverMatches pg
             then [(Elem h, MouseMove, HeroMouseMove), (Elem h, MouseLeave, HeroMouseLeave)]
             else [])\<rparr>)"
  by (cases "heroDiv pg") (simp_all add: section_hero_def addEventListener_def)

lemma section_franchise_eq:
  "section_franchise pg s =
     Inr (s\<lparr>listeners := listeners s @
        (case franchiseBtn pg of None \<Rightarrow> [] | Some b \<Rightarrow> [(Elem b, Click, FranchiseBtnClick)])\<rparr>)"
  by (cases "franchiseBtn pg") (simp_all add: section_franchise_def addEventListener_def)

lemma section_footer_eq:
  "section_footer pg s =
     Inr (case footerYearSpan pg of
            None \<Rightarrow> s
          | Some f \<Rightarrow> set_innerHTML f
              (replace (innerHTML (elems s f)) ''2024'' (number_to_string (currentYear pg))) s)"
  by (cases "footerYearSpan pg") (simp_all add: section_footer_def)

lemma section_touch_eq:
  "list_all (\<lambda>l. snd (snd l) \<noteq> EmptyFn) (listeners s) \<Longrightarrow>
   section_touch pg s =
     Inr (case heroDiv pg of
            None \<Rightarrow> s
          | Some h \<Rightarrow> if ontouchstart pg then set_boxShadow h Touch s else s)"
proof -
  assume a: "list_all (\<lambda>l. snd (snd l) \<noteq> EmptyFn) (listeners s)"
  have "removeAll (t, ty, EmptyFn) (listeners s) = listeners s" for t ty
    using a by (intro removeAll_id) (force simp: list_all_iff)
  then show ?thesis
    by (cases "heroDiv pg") (simp_all add: section_touch_def removeEventListener_def)
qed

lemma EmptyFn_not_registered:
  "EmptyFn \<notin> (snd \<circ> snd) ` set (listener_table pg)"
  by (auto simp: listener_table_def split: option.splits if_splits)

lemma script_eq:
  "script pg d = Inr \<lparr>elems = patched pg d, listeners = listener_table pg, alerts = []\<rparr>"
proof -
  define s8 where "s8 =
    \<lparr>elems = (case footerYearSpan pg of
                None \<Rightarrow> d
              | Some f \<Rightarrow> d(f := (d f)\<lparr>innerHTML :=
                  replace (innerHTML (d f)) ''2024'' (number_to_string (currentYear pg))\<rparr>)),
     listeners = butlast (listener_table pg), alerts = []\<rparr>"
  have upto8:
    "script pg d = then_do (section_touch pg s8) (section_load pg)"
    by (cases "footerYearSpan pg")
       (simp_all add: script_def section_mobile_menu_eq section_nav_def section_mobile_nav_def
          section_delivery_def forEach_click_eq section_hero_eq section_footer_eq
          section_resize_def section_franchise_eq addEventListener_def listener_table_def
          set_innerHTML_def update_elem_def s8_def butlast_append)
  have "list_all (\<lambda>l. snd (snd l) \<noteq> EmptyFn) (listener_table pg)"
    by (auto simp: list_all_iff listener_table_def split: option.splits if_splits)
  then have "list_all (\<lambda>l. snd (snd l) \<noteq> EmptyFn) (listeners s8)"
    by (auto simp: list_all_iff s8_def dest: in_set_butlastD)
  note touch = section_touch_eq [OF this, of pg]
  have last: "butlast (listener_table pg) @ [(Window, DOMContentLoaded, WindowDOMContentLoaded)]
      = listener_table pg"
    by (simp add: listener_table_def butlast_append)
  show ?thesis
    unfolding upto8 touch
    by (cases "heroDiv pg"; cases "footerYearSpan pg")
       (auto simp: section_load_def addEventListener_def s8_def last patched_def
          set_boxShadow_def update_elem_def Let_def intro!: ext)
qed

lemmas sample_defs = sample_page_def sample_doc_def open_doc_def state_of_def blank_def

subsection \<open>Which listeners an event runs\<close>

lemma run_listeners_Nil_fn [simp]: "run_listeners pg ev [] = Inr"
  by (rule ext) simp

text \<open>Only the listeners registered on the event's target for its type matter.\<close>

lemma run_listeners_filter:
  "run_listeners pg ev ls s =
     run_listeners pg ev (filter (\<lambda>l. fst l = etarget ev \<and> fst (snd l) = etype ev) ls) s"
  by (induction ls arbitrary: s) (auto simp: then_do_def split: sum.splits)

lemma no_match_in_map:
  "etarget ev \<notin> Elem ` set ns \<or> etype ev \<noteq> ty \<Longrightarrow>
   filter (\<lambda>l. fst l = etarget ev \<and> fst (snd l) = etype ev) (map (\<lambda>n. (Elem n, ty, h)) ns) = []"
  by (auto simp: filter_empty_conv image_iff)

text \<open>
  A click on the hamburger button, when the button is none of the other elements the
  script listens on, runs the hamburger listener alone.
\<close>

lemma dispatch_hamburger:
  assumes "listeners s = listener_table pg"
      and "mobileBtn pg = Some b" "mobileMenu pg = Some m"
      and "b \<notin> set (navLinks pg)" "b \<notin> set (mobileNavLinks pg)" "b \<notin> set (deliveryBtns pg)"
      and "franchiseBtn pg \<noteq> Some b"
  shows "dispatch pg (click_on b) s = mobileBtn_click pg s"
proof -
  have ev: "etarget (click_on b) = Elem b" "etype (click_on b) = Click"
    by (simp_all add: click_on_def)
  have skip: "filter (\<lambda>l. fst l = Elem b \<and> fst (snd l) = Click)
      (map (\<lambda>n. (Elem n, Click, h)) ns) = []" if "b \<notin> set ns" for h ns
    using that no_match_in_map [of "click_on b" ns Click h] by (auto simp: ev)
  have "filter (\<lambda>l. fst l = Elem b \<and> fst (snd l) = Click) (listener_table pg)
      = [(Elem b, Click, MobileBtnClick)]"
    using assms(2-)
    by (cases "heroDiv pg"; cases "franchiseBtn pg") (simp_all add: listener_table_def skip)
  then show ?thesis
    unfolding dispatch_def assms(1)
    by (subst run_listeners_filter) (simp add: ev)
qed

lemma dispatch_load:
  assumes "listeners s = listener_table pg"
      and "etarget ev = Window" "etype ev = DOMContentLoaded"
  shows "dispatch pg ev s = window_DOMContentLoaded pg s"
proof -
  have skip: "filter (\<lambda>l. fst l = Window \<and> fst (snd l) = DOMContentLoaded)
      (map (\<lambda>n. (Elem n, Click, h)) ns) = []" for h ns
    using no_match_in_map [of ev ns Click h] assms by auto
  have "filter (\<lambda>l. fst l = Window \<and> fst (snd l) = DOMContentLoaded) (listener_table pg)
      = [(Window, DOMContentLoaded, WindowDOMContentLoaded)]"
    by (cases "mobileBtn pg"; cases "mobileMenu pg"; cases "heroDiv pg"; cases "franchiseBtn pg")
       (simp_all add: listener_table_def skip)
  then show ?thesis
    unfolding dispatch_def assms(1)
    by (subst run_listeners_filter) (simp add: assms)
qed

subsection \<open>The listeners in closed form\<close>

lemma mobileBtn_click_eq:
  "mobileMenu pg = Some m \<Longrightarrow>
   mobileBtn_click pg s =
     Inr (if classList_contains m ''hidden'' s
          then set_animation m ''fadeIn 0.25s ease'' (classList_toggle m ''hidden'' s)
          else set_animation m '''' (classList_toggle m ''hidden'' s))"
  by (simp add: mobileBtn_click_def prim_defs)

lemma hidden_after_toggle:
  "classList_contains m ''hidden'' (set_animation m v (classList_toggle m ''hidden'' s))
     = (\<not> classList_contains m ''hidden'' s)"
  by (simp add: prim_defs)

lemma navLink_click_eq:
  "navLink_click pg (Elem l) s = Inr (classList_add l ''active-nav'' (removeActiveClass pg s))"
  by (simp add: navLink_click_def)

lemma active_after_add:
  "classList_contains k ''active-nav'' (classList_add l ''active-nav'' (removeActiveClass pg s))
     = (k = l \<or> (k \<notin> set (navLinks pg) \<and> classList_contains k ''active-nav'' s))"
  by (auto simp: prim_defs removeActiveClass_elems)

subsection \<open>Listeners that cannot fail\<close>

lemma run_handler_total:
  "safe pg (etarget ev, ty, h) \<Longrightarrow> \<exists>s'. run_handler pg h ev s = Inr s'"
  by (cases h; cases "mobileMenu pg"; cases "homeLink pg"; cases "etarget ev")
     (simp_all add: handler_defs)

lemma run_listeners_total:
  "list_all (safe pg) ls \<Longrightarrow> \<exists>s'. run_listeners pg ev ls s = Inr s'"
proof (induction ls arbitrary: s)
  case Nil
  then show ?case by simp
next
  case (Cons l ls)
  obtain t ty h where l: "l = (t, ty, h)" by (cases l)
  show ?case
  proof (cases "t = etarget ev \<and> ty = etype ev")
    case True
    with Cons.prems l obtain s1 where "run_handler pg h ev s = Inr s1"
      using run_handler_total [of pg ev ty h s] by auto
    moreover from Cons have "\<exists>s'. run_listeners pg ev ls s1 = Inr s'" by simp
    ultimately show ?thesis using True l by simp
  next
    case False
    with Cons l show ?thesis by auto
  qed
qed

lemma run_total:
  "list_all (safe pg) (listeners s) \<Longrightarrow> \<exists>s'. run pg evs s = Inr s'"
proof (induction evs arbitrary: s)
  case Nil
  then show ?case by simp
next
  case (Cons ev evs)
  from run_listeners_total [OF Cons.prems] obtain s1 where
    s1: "dispatch pg ev s = Inr s1"
    unfolding dispatch_def by blast
  with dispatch_keep [OF s1] Cons.prems have "list_all (safe pg) (listeners s1)"
    by simp
  from Cons.IH [OF this] s1 show ?case by simp
qed

lemma listener_table_safe: "list_all (safe pg) (listener_table pg)"
  by (cases "mobileBtn pg"; cases "mobileMenu pg"; cases "heroDiv pg"; cases "franchiseBtn pg")
     (simp_all add: listener_table_def list.pred_map comp_def list.pred_True)

section \<open>The active link\<close>

text \<open>
  Claim C1, as amended. After the click listener of a desktop nav link has run, that link
  and no other nav link carries \<open>active-nav\<close>. After the load listener has run on a
  page where the home link is found, the home link carries \<open>active-nav\<close> and no other
  nav link does. Where the home link is not found, the load listener leaves every
  element's \<open>active-nav\<close> as it was.
\<close>

theorem active_nav_exclusive:
  "(l \<in> set (navLinks pg) \<longrightarrow>
      (\<exists>s'. navLink_click pg (Elem l) s = Inr s'
         \<and> (\<forall>k \<in> set (navLinks pg). classList_contains k ''active-nav'' s' \<longleftrightarrow> k = l)))
   \<and> (homeLink pg = Some h \<longrightarrow>
      (\<exists>s'. window_DOMContentLoaded pg s = Inr s' \<and> classList_contains h ''active-nav'' s'
         \<and> (\<forall>k \<in> set (navLinks pg). classList_contains k ''active-nav'' s' \<longrightarrow> k = h)))
   \<and> (homeLink pg = None \<longrightarrow>
      (\<exists>s'. window_DOMContentLoaded pg s = Inr s'
         \<and> (\<forall>k. classList_contains k ''active-nav'' s' = classList_contains k ''active-nav'' s)))"
proof (intro conjI impI)
  assume "l \<in> set (navLinks pg)"
  show "\<exists>s'. navLink_click pg (Elem l) s = Inr s'
         \<and> (\<forall>k \<in> set (navLinks pg). classList_contains k ''active-nav'' s' \<longleftrightarrow> k = l)"
    by (simp add: navLink_click_eq active_after_add)
next
  assume h: "homeLink pg = Some h"
  show "\<exists>s'. window_DOMContentLoaded pg s = Inr s' \<and> classList_contains h ''active-nav'' s'
         \<and> (\<forall>k \<in> set (navLinks pg). classList_contains k ''active-nav'' s' \<longrightarrow> k = h)"
    using h by (cases "mobileMenu pg") (auto simp: window_DOMContentLoaded_def active_after_add)
next
  assume h: "homeLink pg = None"
  show "\<exists>s'. window_DOMContentLoaded pg s = Inr s'
         \<and> (\<forall>k. classList_contains k ''active-nav'' s' = classList_contains k ''active-nav'' s)"
    using h by (cases "mobileMenu pg") (auto simp: window_DOMContentLoaded_def prim_defs)
qed


theorem active_nav_exclusive_witness:
  "13 \<in> set (navLinks sample_page)
   \<and> returns (\<lambda>s'. classList_contains 13 ''active-nav'' s' \<and> \<not> classList_contains 12 ''active-nav'' s')
       (navLink_click sample_page (Elem 13) (state_of sample_doc))
   \<and> homeLink sample_page = Some 12
   \<and> returns (\<lambda>s'. classList_contains 12 ''active-nav'' s' \<and> \<not> classList_contains 13 ''active-nav'' s')
       (window_DOMContentLoaded sample_page (state_of two_active_doc))
   \<and> homeLink (sample_page\<lparr>homeLink := None\<rparr>) = None
   \<and> returns (\<lambda>s'. classList_contains 12 ''active-nav'' s' \<and> \<not> classList_contains 13 ''active-nav'' s')
       (window_DOMContentLoaded (sample_page\<lparr>homeLink := None\<rparr>) (state_of sample_doc))"
proof -
  let ?pg = "sample_page\<lparr>homeLink := None\<rparr>"
  have a: "13 \<in> set (navLinks sample_page)"
    and b: "homeLink sample_page = Some 12"
    and c: "homeLink ?pg = None"
    and n: "navLinks sample_page = [12, 13]"
    by (simp_all add: sample_page_def)
  have d: "classList_contains 12 ''active-nav'' (state_of sample_doc)"
    "\<not> classList_contains 13 ''active-nav'' (state_of sample_doc)"
    by (simp_all add: classList_contains_def sample_defs)
  note t1 = active_nav_exclusive [of 13 sample_page "state_of sample_doc" 12,
      THEN conjunct1, THEN mp, OF a]
  then have 11: "returns (\<lambda>s'. classList_contains 13 ''active-nav'' s' \<and> \<not> classList_contains 12 ''active-nav'' s')
       (navLink_click sample_page (Elem 13) (state_of sample_doc))"
    by (auto simp: returns_def n)
  note t2 = active_nav_exclusive [of 13 sample_page "state_of two_active_doc" 12,
      THEN conjunct2, THEN conjunct1, THEN mp, OF b]
  then have 12: "returns (\<lambda>s'. classList_contains 12 ''active-nav'' s' \<and> \<not> classList_contains 13 ''active-nav'' s')
       (window_DOMContentLoaded sample_page (state_of two_active_doc))"
    by (auto simp: returns_def n)
  note t3 = active_nav_exclusive [of 13 ?pg "state_of sample_doc" 12,
      THEN conjunct2, THEN conjunct2, THEN mp, OF c]
  with d have 13: "returns (\<lambda>s'. classList_contains 12 ''active-nav'' s' \<and> \<not> classList_contains 13 ''active-nav'' s')
       (window_DOMContentLoaded ?pg (state_of sample_doc))"
    by (elim exE conjE) (simp add: returns_def)
  from a b c 11 12 13 show ?thesis by (intro conjI)
qed


text \<open>
  Claim C1 as stated fails where the lookup of the home link finds nothing: on a document
  whose two nav links are both marked active, both still are after the load listener.
\<close>

theorem load_init_two_active_counterexample:
  "navLinks (sample_page\<lparr>homeLink := None\<rparr>) = [12, 13]
   \<and> returns (\<lambda>s. classList_contains 12 ''active-nav'' s \<and> classList_contains 13 ''active-nav'' s)
       (then_do (script (sample_page\<lparr>homeLink := None\<rparr>) two_active_doc)
          (run (sample_page\<lparr>homeLink := None\<rparr>) [content_loaded]))"
  by (simp add: script_eq returns_def dispatch_def listener_table_def content_loaded_def
      window_DOMContentLoaded_def patched_def sample_defs two_active_doc_def prim_defs)

section \<open>The hamburger button\<close>

text \<open>
  Claim C2, as amended. Two runs of the hamburger button's click listener leave the menu's
  \<open>hidden\<close> membership as it was, and every other element untouched. The inline
  animation afterwards is the empty string when the menu is hidden and
  \<open>fadeIn 0.25s ease\<close> when it is shown; so it is the value before the first click
  exactly when the menu started with that value.
\<close>

theorem hamburger_twice:
  assumes "mobileMenu pg = Some m"
  shows "\<exists>s2. then_do (mobileBtn_click pg s) (mobileBtn_click pg) = Inr s2
     \<and> classList_contains m ''hidden'' s2 = classList_contains m ''hidden'' s
     \<and> animation (elems s2 m) =
         (if classList_contains m ''hidden'' s then '''' else ''fadeIn 0.25s ease'')
     \<and> (\<forall>n. n \<noteq> m \<longrightarrow> elems s2 n = elems s n)"
  using assms by (simp add: mobileBtn_click_eq hidden_after_toggle) (simp add: prim_defs)

theorem hamburger_twice_witness:
  "mobileMenu sample_page = Some 11
   \<and> returns (\<lambda>s2. \<not> classList_contains 11 ''hidden'' s2
         \<and> animation (elems s2 11) = animation (open_doc 11) \<and> elems s2 10 = open_doc 10)
       (then_do (mobileBtn_click sample_page (state_of open_doc)) (mobileBtn_click sample_page))"
proof -
  have m: "mobileMenu sample_page = Some 11"
    by (simp add: sample_page_def)
  have o: "\<not> classList_contains 11 ''hidden'' (state_of open_doc)"
    "animation (open_doc 11) = ''fadeIn 0.25s ease''" "elems (state_of open_doc) 10 = open_doc 10"
    by (simp_all add: classList_contains_def state_of_def open_doc_def blank_def)
  from hamburger_twice [OF m, of "state_of open_doc"] o
  have "returns (\<lambda>s2. \<not> classList_contains 11 ''hidden'' s2
         \<and> animation (elems s2 11) = animation (open_doc 11) \<and> elems s2 10 = open_doc 10)
       (then_do (mobileBtn_click sample_page (state_of open_doc)) (mobileBtn_click sample_page))"
    by (elim exE conjE) (simp add: returns_def)
  with m show ?thesis by (intro conjI)
qed

text \<open>
  Claim C2 as stated fails for a menu that the markup shows and gives no inline
  animation: two clicks leave it shown, with the animation \<open>fadeIn 0.25s ease\<close>.
\<close>

theorem hamburger_twice_counterexample:
  "animation (shown_doc 11) = ''''
   \<and> \<not> classList_contains 11 ''hidden'' (state_of shown_doc)
   \<and> returns (\<lambda>s2. \<not> classList_contains 11 ''hidden'' s2
         \<and> animation (elems s2 11) = ''fadeIn 0.25s ease'')
       (then_do (mobileBtn_click sample_page (state_of shown_doc)) (mobileBtn_click sample_page))"
  by (simp add: returns_def mobileBtn_click_def prim_defs sample_defs shown_doc_def)

section \<open>The ten components\<close>

lemma hamburger_in_listener_table:
  "((t, ty, MobileBtnClick) \<in> set (listener_table pg))
     = (ty = Click \<and> mobileMenu pg \<noteq> None \<and> map_option Elem (mobileBtn pg) = Some t)"
  by (cases "mobileBtn pg"; cases "mobileMenu pg")
     (auto simp: listener_table_def split: option.splits if_splits)

lemma in_listener_table:
  "((t, ty, NavLinkClick) \<in> set (listener_table pg))
     = (ty = Click \<and> t \<in> Elem ` set (navLinks pg))"
  "((t, ty, MobileNavLinkClick) \<in> set (listener_table pg))
     = (ty = Click \<and> t \<in> Elem ` set (mobileNavLinks pg))"
  "((t, ty, DeliveryBtnClick) \<in> set (listener_table pg))
     = (ty = Click \<and> t \<in> Elem ` set (deliveryBtns pg))"
  "((t, ty, HeroMouseMove) \<in> set (listener_table pg))
     = (ty = MouseMove \<and> hoverMatches pg \<and> map_option Elem (heroDiv pg) = Some t)"
  "((t, ty, HeroMouseLeave) \<in> set (listener_table pg))
     = (ty = MouseLeave \<and> hoverMatches pg \<and> map_option Elem (heroDiv pg) = Some t)"
  "((t, ty, WindowResize) \<in> set (listener_table pg)) = (ty = Resize \<and> t = Window)"
  "((t, ty, FranchiseBtnClick) \<in> set (listener_table pg))
     = (ty = Click \<and> map_option Elem (franchiseBtn pg) = Some t)"
  "((t, ty, WindowDOMContentLoaded) \<in> set (listener_table pg))
     = (ty = DOMContentLoaded \<and> t = Window)"
  "(t, ty, EmptyFn) \<notin> set (listener_table pg)"
  by (auto simp: listener_table_def split: option.splits if_splits)

lemma set_event_types:
  "set (event_types hs s) = (\<Union>h \<in> set hs. {ty. \<exists>t. (t, ty, h) \<in> set (listeners s)})"
  by (force simp: event_types_def)

lemma some_target: "(\<exists>t. t \<in> Elem ` set ns) = (ns \<noteq> [])"
  by (cases ns) auto

lemma event_types_table:
  assumes "listeners s = listener_table pg"
  shows "set (event_types [MobileBtnClick] s)
      = (if mobileBtn pg \<noteq> None \<and> mobileMenu pg \<noteq> None then {Click} else {})"
    and "set (event_types [NavLinkClick] s) = (if navLinks pg = [] then {} else {Click})"
    and "set (event_types [MobileNavLinkClick] s)
      = (if mobileNavLinks pg = [] then {} else {Click})"
    and "set (event_types [DeliveryBtnClick] s) = (if deliveryBtns pg = [] then {} else {Click})"
    and "set (event_types [HeroMouseMove, HeroMouseLeave] s)
      = (if heroDiv pg \<noteq> None \<and> hoverMatches pg then {MouseMove, MouseLeave} else {})"
    and "set (event_types [WindowResize] s) = {Resize}"
    and "set (event_types [FranchiseBtnClick] s)
      = (if franchiseBtn pg \<noteq> None then {Click} else {})"
    and "set (event_types [WindowDOMContentLoaded] s) = {DOMContentLoaded}"
    and "set (event_types [EmptyFn] s) = {}"
  by (auto simp: set_event_types assms hamburger_in_listener_table in_listener_table some_target)

text \<open>
  Claim C3, as amended, for all ten components. The listeners the script registers, and
  the event types each component reacts to, are exactly these: the menu toggle, \<open>click\<close>
  on the hamburger button (when button and menu exist); the nav tracker, the mobile nav
  links and the delivery buttons, \<open>click\<close> on each of their elements; the hero image
  shadow, \<open>mousemove\<close> and \<open>mouseleave\<close> on the hero image, two event types (when the
  image exists and the hover query matched, none otherwise); the resize listener,
  \<open>resize\<close> on the window; the franchise button, \<open>click\<close> on it (when it exists); the
  load listener, \<open>DOMContentLoaded\<close> on the window. The footer patch and the touch
  simplification react to no event: they run once in the script, which changes no class
  list and no inline animation, writes HTML to the footer paragraph only, and sets the
  box shadow of the hero image only, and only where \<open>ontouchstart\<close> is in the window.

  What the listeners change: the menu toggle, the mobile nav link listener and the resize
  listener change no element but the mobile menu, and of it only class list and inline
  animation (the toggle always flips \<open>hidden\<close>); each hero listener writes the inline box
  shadow of the hero image and nothing else (the mouse move listener nothing at all in a
  window of width or height 0); the delivery and franchise listeners change no element and
  add one dialog; the nav tracker changes class lists only, of the nav links and the
  clicked link; the load listener changes class lists only, of the menu, the nav links and
  the home link.
\<close>

theorem ten_components_frame:
  "(\<exists>s. script pg d = Inr s
      \<and> ((t, ty, MobileBtnClick) \<in> set (listeners s))
          = (ty = Click \<and> mobileMenu pg \<noteq> None \<and> map_option Elem (mobileBtn pg) = Some t)
      \<and> ((t, ty, NavLinkClick) \<in> set (listeners s))
          = (ty = Click \<and> t \<in> Elem ` set (navLinks pg))
      \<and> ((t, ty, MobileNavLinkClick) \<in> set (listeners s))
          = (ty = Click \<and> t \<in> Elem ` set (mobileNavLinks pg))
      \<and> ((t, ty, DeliveryBtnClick) \<in> set (listeners s))
          = (ty = Click \<and> t \<in> Elem ` set (deliveryBtns pg))
      \<and> ((t, ty, HeroMouseMove) \<in> set (listeners s))
          = (ty = MouseMove \<and> hoverMatches pg \<and> map_option Elem (heroDiv pg) = Some t)
      \<and> ((t, ty, HeroMouseLeave) \<in> set (listeners s))
          = (ty = MouseLeave \<and> hoverMatches pg \<and> map_option Elem (heroDiv pg) = Some t)
      \<and> ((t, ty, WindowResize) \<in> set (listeners s)) = (ty = Resize \<and> t = Window)
      \<and> ((t, ty, FranchiseBtnClick) \<in> set (listeners s))
          = (ty = Click \<and> map_option Elem (franchiseBtn pg) = Some t)
      \<and> ((t, ty, WindowDOMContentLoaded) \<in> set (listeners s))
          = (ty = DOMContentLoaded \<and> t = Window)
      \<and> (t, ty, EmptyFn) \<notin> set (listeners s)
      \<and> set (event_types [MobileBtnClick] s)
          = (if mobileBtn pg \<noteq> None \<and> mobileMenu pg \<noteq> None then {Click} else {})
      \<and> set (event_types [NavLinkClick] s) = (if navLinks pg = [] then {} else {Click})
      \<and> set (event_types [MobileNavLinkClick] s)
          = (if mobileNavLinks pg = [] then {} else {Click})
      \<and> set (event_types [DeliveryBtnClick] s)
          = (if deliveryBtns pg = [] then {} else {Click})
      \<and> set (event_types [HeroMouseMove, HeroMouseLeave] s)
          = (if heroDiv pg \<noteq> None \<and> hoverMatches pg then {MouseMove, MouseLeave} else {})
      \<and> set (event_types [WindowResize] s) = {Resize}
      \<and> set (event_types [FranchiseBtnClick] s)
          = (if franchiseBtn pg \<noteq> None then {Click} else {})
      \<and> set (event_types [WindowDOMContentLoaded] s) = {DOMContentLoaded}
      \<and> classList (elems s k) = classList (d k)
      \<and> animation (elems s k) = animation (d k)
      \<and> (footerYearSpan pg \<noteq> Some k \<longrightarrow> innerHTML (elems s k) = innerHTML (d k))
      \<and> boxShadow (elems s k)
          = (if ontouchstart pg \<and> heroDiv pg = Some k then Touch else boxShadow (d k))
      \<and> alerts s = [])
   \<and> (mobileMenu pg = Some m \<longrightarrow>
        (\<exists>s1. mobileBtn_click pg s0 = Inr s1
           \<and> classList_contains m ''hidden'' s1 = (\<not> classList_contains m ''hidden'' s0)
           \<and> (k \<noteq> m \<longrightarrow> elems s1 k = elems s0 k)
           \<and> boxShadow (elems s1 k) = boxShadow (elems s0 k)
           \<and> innerHTML (elems s1 k) = innerHTML (elems s0 k)
           \<and> listeners s1 = listeners s0 \<and> alerts s1 = alerts s0))
   \<and> (\<exists>s1. navLink_click pg (Elem n) s0 = Inr s1
        \<and> (k \<notin> set (navLinks pg) \<and> k \<noteq> n \<longrightarrow> elems s1 k = elems s0 k)
        \<and> animation (elems s1 k) = animation (elems s0 k)
        \<and> boxShadow (elems s1 k) = boxShadow (elems s0 k)
        \<and> innerHTML (elems s1 k) = innerHTML (elems s0 k)
        \<and> listeners s1 = listeners s0 \<and> alerts s1 = alerts s0)
   \<and> (\<exists>s1. mobileNavLink_click pg (Elem l) s0 = Inr s1
        \<and> (mobileMenu pg \<noteq> Some k \<longrightarrow> elems s1 k = elems s0 k)
        \<and> boxShadow (elems s1 k) = boxShadow (elems s0 k)
        \<and> innerHTML (elems s1 k) = innerHTML (elems s0 k)
        \<and> listeners s1 = listeners s0 \<and> alerts s1 = alerts s0)
   \<and> (\<exists>s1. deliveryBtn_click s0 = Inr s1
        \<and> elems s1 = elems s0 \<and> listeners s1 = listeners s0
        \<and> alerts s1 = alerts s0 @ [OrderReceived])
   \<and> (\<exists>s1. heroDiv_mousemove (Elem e) x y w ht s0 = Inr s1
        \<and> boxShadow (elems s1 e)
            = (if w = 0 \<or> ht = 0 then boxShadow (elems s0 e) else Dynamic x y w ht)
        \<and> (k \<noteq> e \<longrightarrow> elems s1 k = elems s0 k)
        \<and> classList (elems s1 k) = classList (elems s0 k)
        \<and> animation (elems s1 k) = animation (elems s0 k)
        \<and> innerHTML (elems s1 k) = innerHTML (elems s0 k)
        \<and> listeners s1 = listeners s0 \<and> alerts s1 = alerts s0)
   \<and> (\<exists>s1. heroDiv_mouseleave (Elem e) s0 = Inr s1
        \<and> boxShadow (elems s1 e) = Rest
        \<and> (k \<noteq> e \<longrightarrow> elems s1 k = elems s0 k)
        \<and> classList (elems s1 k) = classList (elems s0 k)
        \<and> animation (elems s1 k) = animation (elems s0 k)
        \<and> innerHTML (elems s1 k) = innerHTML (elems s0 k)
        \<and> listeners s1 = listeners s0 \<and> alerts s1 = alerts s0)
   \<and> (\<exists>s1. window_resize pg width s0 = Inr s1
        \<and> (mobileMenu pg \<noteq> Some k \<longrightarrow> elems s1 k = elems s0 k)
        \<and> boxShadow (elems s1 k) = boxShadow (elems s0 k)
        \<and> innerHTML (elems s1 k) = innerHTML (elems s0 k)
        \<and> listeners s1 = listeners s0 \<and> alerts s1 = alerts s0)
   \<and> (\<exists>s1. franchiseBtn_click s0 = Inr s1
        \<and> elems s1 = elems s0 \<and> listeners s1 = listeners s0
        \<and> alerts s1 = alerts s0 @ [FranchiseInquiry])
   \<and> (\<exists>s1. window_DOMContentLoaded pg s0 = Inr s1
        \<and> (mobileMenu pg \<noteq> Some k \<and> k \<notin> set (navLinks pg) \<and> homeLink pg \<noteq> Some k
             \<longrightarrow> elems s1 k = elems s0 k)
        \<and> animation (elems s1 k) = animation (elems s0 k)
        \<and> boxShadow (elems s1 k) = boxShadow (elems s0 k)
        \<and> innerHTML (elems s1 k) = innerHTML (elems s0 k)
        \<and> listeners s1 = listeners s0 \<and> alerts s1 = alerts s0)"
proof -
  let ?s = "\<lparr>elems = patched pg d, listeners = listener_table pg, alerts = []\<rparr>"
  have ls: "listeners ?s = listener_table pg"
    by simp
  have init: "classList (patched pg d k) = classList (d k)"
    "animation (patched pg d k) = animation (d k)"
    "footerYearSpan pg \<noteq> Some k \<longrightarrow> innerHTML (patched pg d k) = innerHTML (d k)"
    "boxShadow (patched pg d k)
       = (if ontouchstart pg \<and> heroDiv pg = Some k then Touch else boxShadow (d k))"
    by (simp_all add: patched_def Let_def)
  have toggle: "mobileMenu pg = Some m \<longrightarrow>
        (\<exists>s1. mobileBtn_click pg s0 = Inr s1
           \<and> classList_contains m ''hidden'' s1 = (\<not> classList_contains m ''hidden'' s0)
           \<and> (k \<noteq> m \<longrightarrow> elems s1 k = elems s0 k)
           \<and> boxShadow (elems s1 k) = boxShadow (elems s0 k)
           \<and> innerHTML (elems s1 k) = innerHTML (elems s0 k)
           \<and> listeners s1 = listeners s0 \<and> alerts s1 = alerts s0)"
    by (simp add: mobileBtn_click_def prim_defs)
  have nav: "\<exists>s1. navLink_click pg (Elem n) s0 = Inr s1
        \<and> (k \<notin> set (navLinks pg) \<and> k \<noteq> n \<longrightarrow> elems s1 k = elems s0 k)
        \<and> animation (elems s1 k) = animation (elems s0 k)
        \<and> boxShadow (elems s1 k) = boxShadow (elems s0 k)
        \<and> innerHTML (elems s1 k) = innerHTML (elems s0 k)
        \<and> listeners s1 = listeners s0 \<and> alerts s1 = alerts s0"
    by (simp add: navLink_click_def classList_add_def removeActiveClass_elems)
  have mnav: "\<exists>s1. mobileNavLink_click pg (Elem l) s0 = Inr s1
        \<and> (mobileMenu pg \<noteq> Some k \<longrightarrow> elems s1 k = elems s0 k)
        \<and> boxShadow (elems s1 k) = boxShadow (elems s0 k)
        \<and> innerHTML (elems s1 k) = innerHTML (elems s0 k)
        \<and> listeners s1 = listeners s0 \<and> alerts s1 = alerts s0"
    by (cases "mobileMenu pg") (auto simp: mobileNavLink_click_def prim_defs)
  have dlv: "\<exists>s1. deliveryBtn_click s0 = Inr s1
        \<and> elems s1 = elems s0 \<and> listeners s1 = listeners s0
        \<and> alerts s1 = alerts s0 @ [OrderReceived]"
    by (simp add: deliveryBtn_click_def alert_def)
  have move: "\<exists>s1. heroDiv_mousemove (Elem e) x y w ht s0 = Inr s1
        \<and> boxShadow (elems s1 e)
            = (if w = 0 \<or> ht = 0 then boxShadow (elems s0 e) else Dynamic x y w ht)
        \<and> (k \<noteq> e \<longrightarrow> elems s1 k = elems s0 k)
        \<and> classList (elems s1 k) = classList (elems s0 k)
        \<and> animation (elems s1 k) = animation (elems s0 k)
        \<and> innerHTML (elems s1 k) = innerHTML (elems s0 k)
        \<and> listeners s1 = listeners s0 \<and> alerts s1 = alerts s0"
    by (simp add: heroDiv_mousemove_def set_boxShadow_def)
  have leave: "\<exists>s1. heroDiv_mouseleave (Elem e) s0 = Inr s1
        \<and> boxShadow (elems s1 e) = Rest
        \<and> (k \<noteq> e \<longrightarrow> elems s1 k = elems s0 k)
        \<and> classList (elems s1 k) = classList (elems s0 k)
        \<and> animation (elems s1 k) = animation (elems s0 k)
        \<and> innerHTML (elems s1 k) = innerHTML (elems s0 k)
        \<and> listeners s1 = listeners s0 \<and> alerts s1 = alerts s0"
    by (simp add: heroDiv_mouseleave_def set_boxShadow_def)
  have resize: "\<exists>s1. window_resize pg width s0 = Inr s1
        \<and> (mobileMenu pg \<noteq> Some k \<longrightarrow> elems s1 k = elems s0 k)
        \<and> boxShadow (elems s1 k) = boxShadow (elems s0 k)
        \<and> innerHTML (elems s1 k) = innerHTML (elems s0 k)
        \<and> listeners s1 = listeners s0 \<and> alerts s1 = alerts s0"
    by (cases "mobileMenu pg") (auto simp: window_resize_def prim_defs)
  have fran: "\<exists>s1. franchiseBtn_click s0 = Inr s1
        \<and> elems s1 = elems s0 \<and> listeners s1 = listeners s0
        \<and> alerts s1 = alerts s0 @ [FranchiseInquiry]"
    by (simp add: franchiseBtn_click_def alert_def)
  have load: "\<exists>s1. window_DOMContentLoaded pg s0 = Inr s1
        \<and> (mobileMenu pg \<noteq> Some k \<and> k \<notin> set (navLinks pg) \<and> homeLink pg \<noteq> Some k
             \<longrightarrow> elems s1 k = elems s0 k)
        \<and> animation (elems s1 k) = animation (elems s0 k)
        \<and> boxShadow (elems s1 k) = boxShadow (elems s0 k)
        \<and> innerHTML (elems s1 k) = innerHTML (elems s0 k)
        \<and> listeners s1 = listeners s0 \<and> alerts s1 = alerts s0"
    by (cases "mobileMenu pg"; cases "homeLink pg")
       (auto simp: window_DOMContentLoaded_def classList_add_def classList_contains_def
          removeActiveClass_elems)
  show ?thesis
    unfolding script_eq
    apply (intro conjI toggle nav mnav dlv move leave resize fran load)
    apply (rule exI [of _ ?s])
    apply (simp only: sum.inject simp_thms ls hamburger_in_listener_table in_listener_table
        event_types_table [OF ls] init state.simps)
    apply (simp add: init)
    done
qed

theorem ten_components_frame_witness:
  "returns (\<lambda>s. (Elem 17, MouseMove, HeroMouseMove) \<in> set (listeners s)
        \<and> set (event_types [HeroMouseMove, HeroMouseLeave] s) = {MouseMove, MouseLeave}
        \<and> set (event_types [MobileBtnClick] s) = {Click}
        \<and> innerHTML (elems s 12) = innerHTML (sample_doc 12))
      (script sample_page sample_doc)
   \<and> mobileMenu sample_page = Some 11
   \<and> returns (\<lambda>s1. classList_contains 11 ''hidden'' s1 \<and> elems s1 12 = open_doc 12)
        (mobileBtn_click sample_page (state_of open_doc))
   \<and> returns (\<lambda>s1. elems s1 16 = open_doc 16)
        (navLink_click sample_page (Elem 13) (state_of open_doc))
   \<and> returns (\<lambda>s1. elems s1 12 = open_doc 12)
        (mobileNavLink_click sample_page (Elem 14) (state_of open_doc))
   \<and> returns (\<lambda>s1. elems s1 = open_doc \<and> alerts s1 = [OrderReceived])
        (deliveryBtn_click (state_of open_doc))
   \<and> returns (\<lambda>s1. boxShadow (elems s1 17) = Dynamic 100 50 1000 500
          \<and> elems s1 12 = open_doc 12)
        (heroDiv_mousemove (Elem 17) 100 50 1000 500 (state_of open_doc))
   \<and> returns (\<lambda>s1. boxShadow (elems s1 17) = boxShadow (open_doc 17))
        (heroDiv_mousemove (Elem 17) 100 50 0 500 (state_of open_doc))
   \<and> returns (\<lambda>s1. boxShadow (elems s1 17) = Rest \<and> elems s1 12 = open_doc 12)
        (heroDiv_mouseleave (Elem 17) (state_of open_doc))
   \<and> returns (\<lambda>s1. elems s1 12 = open_doc 12)
        (window_resize sample_page 1024 (state_of open_doc))
   \<and> returns (\<lambda>s1. elems s1 16 = open_doc 16)
        (window_DOMContentLoaded sample_page (state_of open_doc))"
proof -
  note th = ten_components_frame [where pg = sample_page and d = sample_doc
      and t = "Elem 17" and ty = MouseMove and m = 11 and n = 13 and l = 14 and e = 17
      and x = 100 and y = 50 and w = 1000 and ht = 500 and width = 1024
      and ?s0.0 = "state_of open_doc"]
  note a = th [where k = 12] and b = th [where k = 16]
  have pg: "mobileMenu sample_page = Some 11" "heroDiv sample_page = Some 17"
    "hoverMatches sample_page" "mobileBtn sample_page = Some 10"
    "footerYearSpan sample_page = Some 18" "navLinks sample_page = [12, 13]"
    "homeLink sample_page = Some 12"
    by (simp_all add: sample_page_def)
  have o: "\<not> classList_contains 11 ''hidden'' (state_of open_doc)"
    by (simp add: classList_contains_def state_of_def open_doc_def blank_def)
  from a [THEN conjunct1]
  have 0: "returns (\<lambda>s. (Elem 17, MouseMove, HeroMouseMove) \<in> set (listeners s)
        \<and> set (event_types [HeroMouseMove, HeroMouseLeave] s) = {MouseMove, MouseLeave}
        \<and> set (event_types [MobileBtnClick] s) = {Click}
        \<and> innerHTML (elems s 12) = innerHTML (sample_doc 12))
      (script sample_page sample_doc)"
    by (elim exE conjE) (simp add: returns_def pg)
  note a1 = a [THEN conjunct2] and b1 = b [THEN conjunct2]
  from a1 [THEN conjunct1] pg(1) o
  have 1: "returns (\<lambda>s1. classList_contains 11 ''hidden'' s1 \<and> elems s1 12 = open_doc 12)
        (mobileBtn_click sample_page (state_of open_doc))"
    by (elim impE exE conjE) (simp_all add: returns_def state_of_def)
  note a2 = a1 [THEN conjunct2] and b2 = b1 [THEN conjunct2]
  from b2 [THEN conjunct1] pg(6)
  have 2: "returns (\<lambda>s1. elems s1 16 = open_doc 16)
        (navLink_click sample_page (Elem 13) (state_of open_doc))"
    by (elim exE conjE) (simp add: returns_def state_of_def)
  note a3 = a2 [THEN conjunct2] and b3 = b2 [THEN conjunct2]
  from a3 [THEN conjunct1] pg(1)
  have 3: "returns (\<lambda>s1. elems s1 12 = open_doc 12)
        (mobileNavLink_click sample_page (Elem 14) (state_of open_doc))"
    by (elim exE conjE) (simp add: returns_def state_of_def)
  note a4 = a3 [THEN conjunct2] and b4 = b3 [THEN conjunct2]
  from a4 [THEN conjunct1]
  have 4: "returns (\<lambda>s1. elems s1 = open_doc \<and> alerts s1 = [OrderReceived])
        (deliveryBtn_click (state_of open_doc))"
    by (elim exE conjE) (simp add: returns_def state_of_def)
  note a5 = a4 [THEN conjunct2] and b5 = b4 [THEN conjunct2]
  from a5 [THEN conjunct1]
  have 5: "returns (\<lambda>s1. boxShadow (elems s1 17) = Dynamic 100 50 1000 500
          \<and> elems s1 12 = open_doc 12)
        (heroDiv_mousemove (Elem 17) 100 50 1000 500 (state_of open_doc))"
    by (elim exE conjE) (simp add: returns_def state_of_def)
  note a6 = a5 [THEN conjunct2] and b6 = b5 [THEN conjunct2]
  from a6 [THEN conjunct1]
  have 6: "returns (\<lambda>s1. boxShadow (elems s1 17) = Rest \<and> elems s1 12 = open_doc 12)
        (heroDiv_mouseleave (Elem 17) (state_of open_doc))"
    by (elim exE conjE) (simp add: returns_def state_of_def)
  note a7 = a6 [THEN conjunct2] and b7 = b6 [THEN conjunct2]
  from a7 [THEN conjunct1] pg(1)
  have 7: "returns (\<lambda>s1. elems s1 12 = open_doc 12)
        (window_resize sample_page 1024 (state_of open_doc))"
    by (elim exE conjE) (simp add: returns_def state_of_def)
  from b7 [THEN conjunct2, THEN conjunct2] pg(1,6,7)
  have 8: "returns (\<lambda>s1. elems s1 16 = open_doc 16)
        (window_DOMContentLoaded sample_page (state_of open_doc))"
    by (elim exE conjE) (simp add: returns_def state_of_def)
  from ten_components_frame [where pg = sample_page and d = sample_doc
      and t = "Elem 17" and ty = MouseMove and m = 11 and n = 13 and l = 14 and e = 17
      and x = 100 and y = 50 and w = 0 and ht = 500 and width = 1024
      and ?s0.0 = "state_of open_doc" and k = 12,
      THEN conjunct2, THEN conjunct2, THEN conjunct2, THEN conjunct2, THEN conjunct2,
      THEN conjunct1]
  have 9: "returns (\<lambda>s1. boxShadow (elems s1 17) = boxShadow (open_doc 17))
        (heroDiv_mousemove (Elem 17) 100 50 0 500 (state_of open_doc))"
    by (elim exE conjE) (simp add: returns_def state_of_def)
  from 0 pg(1) 1 2 3 4 5 9 6 7 8 show ?thesis by (intro conjI)
qed

text \<open>
  Claim C3 as stated fails for two of the components it names. On the sample page the
  hero image component listens for two event types, and a click on the delivery button
  changes no element: it only adds a dialog.
\<close>

theorem one_event_one_element_counterexample:
  "returns (\<lambda>s. event_types [HeroMouseMove, HeroMouseLeave] s = [MouseMove, MouseLeave]
        \<and> returns (\<lambda>s'. elems s' = elems s \<and> alerts s' = [OrderReceived])
             (dispatch sample_page (click_on 16) s))
     (script sample_page sample_doc)"
proof -
  have l: "listener_table sample_page =
     [(Elem 10, Click, MobileBtnClick), (Elem 12, Click, NavLinkClick),
      (Elem 13, Click, NavLinkClick), (Elem 14, Click, MobileNavLinkClick),
      (Elem 15, Click, MobileNavLinkClick), (Elem 16, Click, DeliveryBtnClick),
      (Elem 17, MouseMove, HeroMouseMove), (Elem 17, MouseLeave, HeroMouseLeave),
      (Window, Resize, WindowResize), (Elem 19, Click, FranchiseBtnClick),
      (Window, DOMContentLoaded, WindowDOMContentLoaded)]"
    by (simp add: listener_table_def sample_page_def)
  show ?thesis
    unfolding script_eq
    by (simp add: returns_def event_types_def dispatch_def l click_on_def
        deliveryBtn_click_def alert_def)
qed

section \<open>Resizing the window\<close>

text \<open>
  Claim C4, as amended. On a resize, the listener hides the menu and clears its inline
  animation when \<open>window.innerWidth\<close> is at least 768 and the menu is not hidden; in every
  other case it leaves the whole state as it is. So from 768 on the menu is hidden after
  the listener, and below 768 nothing changes.
\<close>

theorem resize_closes_from_768:
  assumes "mobileMenu pg = Some m"
  shows "\<exists>s'. window_resize pg w s = Inr s'
     \<and> (if 768 \<le> w \<and> \<not> classList_contains m ''hidden'' s
         then classList_contains m ''hidden'' s' \<and> animation (elems s' m) = ''''
           \<and> (\<forall>n. n \<noteq> m \<longrightarrow> elems s' n = elems s n)
         else s' = s)
     \<and> (768 \<le> w \<longrightarrow> classList_contains m ''hidden'' s')"
  using assms by (simp add: window_resize_def) (simp add: prim_defs)

theorem resize_closes_from_768_witness:
  "mobileMenu sample_page = Some 11
   \<and> returns (\<lambda>s'. classList_contains 11 ''hidden'' s' \<and> animation (elems s' 11) = '''')
       (window_resize sample_page 1024 (state_of open_doc))
   \<and> window_resize sample_page 767 (state_of open_doc) = Inr (state_of open_doc)"
proof -
  have m: "mobileMenu sample_page = Some 11"
    by (simp add: sample_page_def)
  have o: "\<not> classList_contains 11 ''hidden'' (state_of open_doc)"
    by (simp add: classList_contains_def state_of_def open_doc_def blank_def)
  from resize_closes_from_768 [OF m, of 1024 "state_of open_doc"] o
  have 11: "returns (\<lambda>s'. classList_contains 11 ''hidden'' s' \<and> animation (elems s' 11) = '''')
       (window_resize sample_page 1024 (state_of open_doc))"
    by (elim exE conjE) (simp add: returns_def)
  from resize_closes_from_768 [OF m, of 767 "state_of open_doc"]
  have 12: "window_resize sample_page 767 (state_of open_doc) = Inr (state_of open_doc)"
    by (elim exE conjE) simp
  from m 11 12 show ?thesis by (intro conjI)
qed

text \<open>
  Claim C4 as stated fails at the breakpoint itself: 768 is not strictly greater than 768,
  and the listener hides an open menu there.
\<close>

theorem resize_at_768_counterexample:
  "\<not> (768 :: int) < 768
   \<and> \<not> classList_contains 11 ''hidden'' (state_of open_doc)
   \<and> returns (\<lambda>s'. classList_contains 11 ''hidden'' s' \<and> animation (elems s' 11) = '''')
       (window_resize sample_page 768 (state_of open_doc))"
  by (simp add: returns_def window_resize_def prim_defs sample_defs)

section \<open>What can be undone\<close>

text \<open>
  Claim C5, as amended. In every state the page reaches after the script, a click on the
  hamburger button flips the menu's \<open>hidden\<close> membership and a second click restores it,
  leaving every other element as it was (the button being none of the other elements the
  script listens on). The footer year replacement is not undone: no sequence of events
  changes the HTML of any element.
\<close>

theorem toggle_undone_footer_kept:
  assumes "script pg d = Inr s0" and "run pg evs s0 = Inr s"
  shows "innerHTML (elems s n) = innerHTML (elems s0 n)
     \<and> (mobileBtn pg = Some b \<and> mobileMenu pg = Some m \<and> b \<notin> set (navLinks pg)
          \<and> b \<notin> set (mobileNavLinks pg) \<and> b \<notin> set (deliveryBtns pg)
          \<and> franchiseBtn pg \<noteq> Some b
        \<longrightarrow> (\<exists>s1 s2. run pg [click_on b] s = Inr s1 \<and> run pg [click_on b] s1 = Inr s2
              \<and> classList_contains m ''hidden'' s1 = (\<not> classList_contains m ''hidden'' s)
              \<and> classList_contains m ''hidden'' s2 = classList_contains m ''hidden'' s
              \<and> (\<forall>k. k \<noteq> m \<longrightarrow> elems s2 k = elems s k)))"
proof (intro conjI impI)
  from assms(1) have l0: "listeners s0 = listener_table pg"
    by (auto simp: script_eq)
  from run_keep [OF assms(2)] l0 have l: "listeners s = listener_table pg"
    by simp
  from run_keep [OF assms(2)] show "innerHTML (elems s n) = innerHTML (elems s0 n)"
    by simp
  assume b: "mobileBtn pg = Some b \<and> mobileMenu pg = Some m \<and> b \<notin> set (navLinks pg)
          \<and> b \<notin> set (mobileNavLinks pg) \<and> b \<notin> set (deliveryBtns pg)
          \<and> franchiseBtn pg \<noteq> Some b"
  then have m: "mobileMenu pg = Some m" by simp
  define flip where "flip = (\<lambda>s. if classList_contains m ''hidden'' s
          then set_animation m ''fadeIn 0.25s ease'' (classList_toggle m ''hidden'' s)
          else set_animation m '''' (classList_toggle m ''hidden'' s))"
  have click: "dispatch pg (click_on b) s' = Inr (flip s')"
    if "listeners s' = listener_table pg" for s'
    using dispatch_hamburger [OF that, of b m] b mobileBtn_click_eq [OF m, of s']
    by (simp add: flip_def)
  have keep: "listeners (flip s') = listeners s'" for s'
    by (simp add: flip_def)
  have hid: "classList_contains m ''hidden'' (flip s') = (\<not> classList_contains m ''hidden'' s')"
    for s'
    by (simp add: flip_def hidden_after_toggle)
  have others: "elems (flip s') k = elems s' k" if "k \<noteq> m" for s' k
    using that by (simp add: flip_def prim_defs)
  have 1: "run pg [click_on b] s = Inr (flip s)"
    by (simp add: click [OF l])
  have 2: "run pg [click_on b] (flip s) = Inr (flip (flip s))"
    by (simp add: click keep l)
  show "\<exists>s1 s2. run pg [click_on b] s = Inr s1 \<and> run pg [click_on b] s1 = Inr s2
              \<and> classList_contains m ''hidden'' s1 = (\<not> classList_contains m ''hidden'' s)
              \<and> classList_contains m ''hidden'' s2 = classList_contains m ''hidden'' s
              \<and> (\<forall>k. k \<noteq> m \<longrightarrow> elems s2 k = elems s k)"
    using 1 2 by (intro exI [of _ "flip s"] exI [of _ "flip (flip s)"]) (simp add: hid others)
qed

theorem toggle_undone_footer_kept_witness:
  "mobileBtn sample_page = Some 10 \<and> mobileMenu sample_page = Some 11
   \<and> returns (\<lambda>s0. returns (\<lambda>s. innerHTML (elems s 18) = innerHTML (elems s0 18)
          \<and> returns (\<lambda>s2. classList_contains 11 ''hidden'' s2 = classList_contains 11 ''hidden'' s
                 \<and> elems s2 12 = elems s 12)
               (run sample_page [click_on 10, click_on 10] s))
        (run sample_page [content_loaded] s0))
      (script sample_page sample_doc)"
proof -
  let ?s0 = "\<lparr>elems = patched sample_page sample_doc, listeners = listener_table sample_page,
     alerts = []\<rparr>"
  have s0: "script sample_page sample_doc = Inr ?s0"
    by (rule script_eq)
  have "list_all (safe sample_page) (listeners ?s0)"
    by (simp add: listener_table_safe)
  from run_total [OF this, of "[content_loaded]"] obtain s where
    s: "run sample_page [content_loaded] ?s0 = Inr s"
    by (elim exE)
  have a: "mobileBtn sample_page = Some 10" "mobileMenu sample_page = Some 11"
    and b: "10 \<notin> set (navLinks sample_page)" "10 \<notin> set (mobileNavLinks sample_page)"
      "10 \<notin> set (deliveryBtns sample_page)" "franchiseBtn sample_page \<noteq> Some 10"
    by (simp_all add: sample_page_def)
  note th = toggle_undone_footer_kept [OF s0 s, of 18 10 11]
  from th have html: "innerHTML (elems s 18) = innerHTML (elems ?s0 18)"
    by (rule conjunct1)
  from a b have pre: "mobileBtn sample_page = Some 10 \<and> mobileMenu sample_page = Some 11
      \<and> 10 \<notin> set (navLinks sample_page) \<and> 10 \<notin> set (mobileNavLinks sample_page)
      \<and> 10 \<notin> set (deliveryBtns sample_page) \<and> franchiseBtn sample_page \<noteq> Some 10"
    by (intro conjI)
  from th [THEN conjunct2, THEN mp, OF pre] obtain s1 s2 where
    r: "run sample_page [click_on 10] s = Inr s1" "run sample_page [click_on 10] s1 = Inr s2"
      "classList_contains 11 ''hidden'' s2 = classList_contains 11 ''hidden'' s"
      and k: "\<forall>k. k \<noteq> 11 \<longrightarrow> elems s2 k = elems s k"
    by (elim exE conjE) (rule that; assumption)
  from k have r4: "elems s2 12 = elems s 12"
    by simp
  from r(1,2) have "run sample_page [click_on 10, click_on 10] s = Inr s2"
    by (simp add: then_do_Inr_iff)
  with r(3) r4 html have "returns (\<lambda>s. innerHTML (elems s 18) = innerHTML (elems ?s0 18)
          \<and> returns (\<lambda>s2. classList_contains 11 ''hidden'' s2 = classList_contains 11 ''hidden'' s
                 \<and> elems s2 12 = elems s 12)
               (run sample_page [click_on 10, click_on 10] s))
        (run sample_page [content_loaded] ?s0)"
    unfolding s returns_def sum.case by (simp only: sum.case simp_thms)
  then have "returns (\<lambda>s0. returns (\<lambda>s. innerHTML (elems s 18) = innerHTML (elems s0 18)
          \<and> returns (\<lambda>s2. classList_contains 11 ''hidden'' s2 = classList_contains 11 ''hidden'' s
                 \<and> elems s2 12 = elems s 12)
               (run sample_page [click_on 10, click_on 10] s))
        (run sample_page [content_loaded] s0))
      (script sample_page sample_doc)"
    unfolding s0 by (simp only: returns_def sum.case)
  with a show ?thesis by (intro conjI)
qed

text \<open>
  Claim C5 as stated fails for the footer: the script replaces the year in the sample
  page's footer, and after no sequence of events does the footer have its first HTML again.
\<close>

theorem footer_patch_irreversible_counterexample:
  "returns (\<lambda>s. innerHTML (elems s 18) \<noteq> innerHTML (sample_doc 18))
      (script sample_page sample_doc)
   \<and> \<not> (\<exists>evs. returns (\<lambda>s. innerHTML (elems s 18) = innerHTML (sample_doc 18))
           (then_do (script sample_page sample_doc) (run sample_page evs)))"
proof -
  let ?s0 = "\<lparr>elems = patched sample_page sample_doc, listeners = listener_table sample_page,
     alerts = []\<rparr>"
  have h: "innerHTML (patched sample_page sample_doc 18) \<noteq> innerHTML (sample_doc 18)"
    by (simp add: patched_def sample_defs number_to_string_def)
  have "innerHTML (elems s 18) \<noteq> innerHTML (sample_doc 18)"
    if "run sample_page evs ?s0 = Inr s" for evs s
    using run_keep [OF that, of 18] h by simp
  then have "\<not> returns (\<lambda>s. innerHTML (elems s 18) = innerHTML (sample_doc 18))
           (then_do (script sample_page sample_doc) (run sample_page evs))" for evs
    unfolding script_eq
    by (cases "run sample_page evs ?s0") (simp_all add: returns_def)
  moreover have "returns (\<lambda>s. innerHTML (elems s 18) \<noteq> innerHTML (sample_doc 18))
      (script sample_page sample_doc)"
    unfolding script_eq using h by (simp add: returns_def)
  ultimately show ?thesis by simp
qed

section \<open>Absent elements\<close>

text \<open>
  Claim C6. The script ends without a TypeError on every page, and so does every listener
  it has registered, in every sequence of events: no absent element is ever used. Where
  the hamburger button or the menu is absent there is no hamburger listener; where the
  franchise button is absent there is no franchise listener; where the hero image is
  absent there is no hero listener and no box shadow is written; where the footer
  paragraph is absent no HTML is written.
\<close>

theorem absent_elements_never_used:
  "\<exists>s. script pg d = Inr s
     \<and> (\<forall>evs. \<exists>s'. run pg evs s = Inr s')
     \<and> (mobileBtn pg = None \<or> mobileMenu pg = None
          \<longrightarrow> MobileBtnClick \<notin> (snd \<circ> snd) ` set (listeners s))
     \<and> (franchiseBtn pg = None \<longrightarrow> FranchiseBtnClick \<notin> (snd \<circ> snd) ` set (listeners s))
     \<and> (heroDiv pg = None
          \<longrightarrow> HeroMouseMove \<notin> (snd \<circ> snd) ` set (listeners s)
            \<and> HeroMouseLeave \<notin> (snd \<circ> snd) ` set (listeners s)
            \<and> (\<forall>n. boxShadow (elems s n) = boxShadow (d n)))
     \<and> (footerYearSpan pg = None \<longrightarrow> (\<forall>n. innerHTML (elems s n) = innerHTML (d n)))"
proof -
  let ?s = "\<lparr>elems = patched pg d, listeners = listener_table pg, alerts = []\<rparr>"
  have run: "\<exists>s'. run pg evs ?s = Inr s'" for evs
    by (rule run_total) (simp add: listener_table_safe)
  have btn: "MobileBtnClick \<notin> (snd \<circ> snd) ` set (listener_table pg)"
    if "mobileBtn pg = None \<or> mobileMenu pg = None"
    using that by (auto simp: listener_table_def split: option.splits if_splits)
  have fr: "FranchiseBtnClick \<notin> (snd \<circ> snd) ` set (listener_table pg)"
    if "franchiseBtn pg = None"
    using that by (auto simp: listener_table_def split: option.splits if_splits)
  have hero: "HeroMouseMove \<notin> (snd \<circ> snd) ` set (listener_table pg)
      \<and> HeroMouseLeave \<notin> (snd \<circ> snd) ` set (listener_table pg)
      \<and> (\<forall>n. boxShadow (patched pg d n) = boxShadow (d n))"
    if "heroDiv pg = None"
    using that by (auto simp: listener_table_def patched_def Let_def split: option.splits)
  have foot: "\<forall>n. innerHTML (patched pg d n) = innerHTML (d n)" if "footerYearSpan pg = None"
    using that by (simp add: patched_def Let_def)
  show ?thesis
    unfolding script_eq using run btn fr hero foot
    by (intro exI [of _ ?s]) simp
qed

theorem absent_elements_never_used_witness:
  "mobileBtn bare_page = None \<and> franchiseBtn bare_page = None \<and> heroDiv bare_page = None
   \<and> footerYearSpan bare_page = None
   \<and> returns (\<lambda>s. map (snd \<circ> snd) (listeners s)
          = [NavLinkClick, NavLinkClick, MobileNavLinkClick, MobileNavLinkClick,
             DeliveryBtnClick, WindowResize, WindowDOMContentLoaded]
        \<and> innerHTML (elems s 18) = innerHTML (sample_doc 18)
        \<and> boxShadow (elems s 17) = boxShadow (sample_doc 17)
        \<and> returns (\<lambda>s'. True)
            (run bare_page [click_on 14, resize_to 1024, content_loaded, click_on 10] s))
       (script bare_page sample_doc)"
proof -
  let ?s = "\<lparr>elems = patched bare_page sample_doc, listeners = listener_table bare_page,
     alerts = []\<rparr>"
  have a: "mobileBtn bare_page = None" "franchiseBtn bare_page = None"
    "heroDiv bare_page = None" "footerYearSpan bare_page = None"
    by (simp_all add: bare_page_def)
  note th = absent_elements_never_used [of bare_page sample_doc, unfolded script_eq]
  from th have all: "\<forall>evs. \<exists>s'. run bare_page evs ?s = Inr s'"
    by (elim exE conjE) simp
  from all [THEN spec, of "[click_on 14, resize_to 1024, content_loaded, click_on 10]"]
  have r: "returns (\<lambda>s'. True)
      (run bare_page [click_on 14, resize_to 1024, content_loaded, click_on 10] ?s)"
    by (elim exE) (simp only: returns_def sum.case)
  from th a have html: "innerHTML (elems ?s 18) = innerHTML (sample_doc 18)"
    by (elim exE conjE) simp
  from th a have shadow: "boxShadow (elems ?s 17) = boxShadow (sample_doc 17)"
    by (elim exE conjE) simp
  have l: "map (snd \<circ> snd) (listeners ?s)
          = [NavLinkClick, NavLinkClick, MobileNavLinkClick, MobileNavLinkClick,
             DeliveryBtnClick, WindowResize, WindowDOMContentLoaded]"
    by (simp add: listener_table_def bare_page_def sample_page_def)
  have "returns (\<lambda>s. map (snd \<circ> snd) (listeners s)
          = [NavLinkClick, NavLinkClick, MobileNavLinkClick, MobileNavLinkClick,
             DeliveryBtnClick, WindowResize, WindowDOMContentLoaded]
        \<and> innerHTML (elems s 18) = innerHTML (sample_doc 18)
        \<and> boxShadow (elems s 17) = boxShadow (sample_doc 17)
        \<and> returns (\<lambda>s'. True)
            (run bare_page [click_on 14, resize_to 1024, content_loaded, click_on 10] s))
       (script bare_page sample_doc)"
    unfolding script_eq returns_def sum.case
    using l html shadow r [unfolded returns_def] by (intro conjI)
  with a show ?thesis by (intro conjI)
qed

subsection \<open>A click on a mobile nav link\<close>

lemma run_listeners_append:
  "run_listeners pg ev (xs @ ys) s = then_do (run_listeners pg ev xs s) (run_listeners pg ev ys)"
proof (induction xs arbitrary: s)
  case Nil
  then show ?case by simp
next
  case (Cons x xs)
  obtain t ty h where x: "x = (t, ty, h)" by (cases x)
  show ?case
  proof (cases "run_handler pg h ev s")
    case (Inl e)
    with Cons x show ?thesis by simp
  next
    case (Inr s1)
    with Cons x show ?thesis by simp
  qed
qed

lemma mobileNavLink_click_eq:
  "mobileMenu pg = Some m \<Longrightarrow>
   mobileNavLink_click pg (Elem l) s = Inr (set_animation m '''' (classList_add m ''hidden'' s))"
  by (simp add: mobileNavLink_click_def)

lemma closed_after_mobileNavLink_click:
  "classList_contains m ''hidden'' (set_animation m '''' (classList_add m ''hidden'' s))"
  "animation (elems (set_animation m '''' (classList_add m ''hidden'' s)) m) = ''''"
  by (simp_all add: prim_defs)

lemma mobileNavLink_click_fix:
  assumes "classList_contains m ''hidden'' s" and "animation (elems s m) = ''''"
  shows "set_animation m '''' (classList_add m ''hidden'' s) = s"
  using assms by (auto simp: prim_defs update_elem_def intro!: state_eqI)

text \<open>
  The click listeners of the mobile nav links, run on a click on \<open>l\<close>: if \<open>l\<close> is one of
  them, or the menu was closed before, the menu is closed afterwards.
\<close>

lemma mobile_nav_part:
  assumes "mobileMenu pg = Some m" and "etype ev = Click" and "etarget ev = Elem l"
  shows "\<exists>s'. run_listeners pg ev (map (\<lambda>n. (Elem n, Click, MobileNavLinkClick)) ns) s = Inr s'
     \<and> (l \<in> set ns \<or> (classList_contains m ''hidden'' s \<and> animation (elems s m) = '''')
          \<longrightarrow> classList_contains m ''hidden'' s' \<and> animation (elems s' m) = '''')"
proof (induction ns arbitrary: s)
  case Nil
  then show ?case by simp
next
  case (Cons n ns)
  show ?case
  proof (cases "n = l")
    case True
    let ?s1 = "set_animation m '''' (classList_add m ''hidden'' s)"
    from Cons [of ?s1] obtain s' where
      "run_listeners pg ev (map (\<lambda>n. (Elem n, Click, MobileNavLinkClick)) ns) ?s1 = Inr s'"
      "classList_contains m ''hidden'' s' \<and> animation (elems s' m) = ''''"
      using closed_after_mobileNavLink_click [of m s] by (elim exE conjE) simp
    with True assms show ?thesis
      by (simp add: mobileNavLink_click_eq)
  next
    case False
    with Cons [of s] assms show ?thesis by simp
  qed
qed

text \<open>Listeners that only show a dialog leave every element as it is.\<close>

lemma dialog_part:
  assumes "\<forall>x \<in> set ls. fst x = etarget ev \<and> fst (snd x) = etype ev
      \<longrightarrow> snd (snd x) = DeliveryBtnClick \<or> snd (snd x) = FranchiseBtnClick"
  shows "\<exists>s'. run_listeners pg ev ls s = Inr s' \<and> elems s' = elems s"
  using assms
proof (induction ls arbitrary: s)
  case Nil
  then show ?case by simp
next
  case (Cons x ls)
  obtain t ty h where x: "x = (t, ty, h)" by (cases x)
  from Cons.prems have rest: "\<forall>x \<in> set ls. fst x = etarget ev \<and> fst (snd x) = etype ev
      \<longrightarrow> snd (snd x) = DeliveryBtnClick \<or> snd (snd x) = FranchiseBtnClick"
    by simp
  show ?case
  proof (cases "t = etarget ev \<and> ty = etype ev")
    case True
    with Cons.prems x have "h = DeliveryBtnClick \<or> h = FranchiseBtnClick" by simp
    then obtain dlg where h: "run_handler pg h ev s = Inr (alert dlg s)"
      by (auto simp: deliveryBtn_click_def franchiseBtn_click_def)
    from Cons.IH [OF rest, of "alert dlg s"] True x h show ?thesis
      by (simp add: alert_def)
  next
    case False
    with Cons.IH [OF rest, of s] x show ?thesis by auto
  qed
qed

lemma click_on_mobile_nav_link:
  assumes "listeners s = listener_table pg"
      and "mobileMenu pg = Some m" and "l \<in> set (mobileNavLinks pg)"
      and "etype ev = Click" and "etarget ev = Elem l"
  shows "\<exists>s'. dispatch pg ev s = Inr s' \<and> listeners s' = listener_table pg
     \<and> classList_contains m ''hidden'' s' \<and> animation (elems s' m) = ''''"
proof -
  define pre where "pre =
     (case mobileBtn pg of
        None \<Rightarrow> []
      | Some b \<Rightarrow> (case mobileMenu pg of None \<Rightarrow> [] | Some m \<Rightarrow> [(Elem b, Click, MobileBtnClick)]))
     @ map (\<lambda>n. (Elem n, Click, NavLinkClick)) (navLinks pg)"
  define mid where "mid = map (\<lambda>n. (Elem n, Click, MobileNavLinkClick)) (mobileNavLinks pg)"
  define post where "post =
     map (\<lambda>n. (Elem n, Click, DeliveryBtnClick)) (deliveryBtns pg)
     @ (case heroDiv pg of
          None \<Rightarrow> []
        | Some h \<Rightarrow>
            if hoverMatches pg
            then [(Elem h, MouseMove, HeroMouseMove), (Elem h, MouseLeave, HeroMouseLeave)]
            else [])
     @ [(Window, Resize, WindowResize)]
     @ (case franchiseBtn pg of None \<Rightarrow> [] | Some b \<Rightarrow> [(Elem b, Click, FranchiseBtnClick)])
     @ [(Window, DOMContentLoaded, WindowDOMContentLoaded)]"
  have table: "listener_table pg = pre @ mid @ post"
    by (simp add: listener_table_def pre_def mid_def post_def)
  from listener_table_safe [of pg] have "list_all (safe pg) pre"
    by (simp add: table)
  from run_listeners_total [OF this, of ev s] obtain s1 where
    s1: "run_listeners pg ev pre s = Inr s1"
    by (elim exE)
  from mobile_nav_part [OF assms(2,4,5), of "mobileNavLinks pg" s1] assms(3) obtain s2 where
    s2: "run_listeners pg ev mid s1 = Inr s2"
    and closed: "classList_contains m ''hidden'' s2" "animation (elems s2 m) = ''''"
    unfolding mid_def by (elim exE conjE) simp
  have "\<forall>x \<in> set post. fst x = etarget ev \<and> fst (snd x) = etype ev
      \<longrightarrow> snd (snd x) = DeliveryBtnClick \<or> snd (snd x) = FranchiseBtnClick"
    using assms(4,5) by (auto simp: post_def split: option.splits if_splits)
  from dialog_part [OF this, of pg s2] obtain s3 where
    s3: "run_listeners pg ev post s2 = Inr s3" and same: "elems s3 = elems s2"
    by (elim exE conjE)
  have d: "dispatch pg ev s = Inr s3"
    by (simp add: dispatch_def assms(1) table run_listeners_append s1 s2 s3)
  from dispatch_keep [OF d] assms(1) have "listeners s3 = listener_table pg"
    by simp
  with d closed same show ?thesis
    by (simp add: classList_contains_def)
qed

text \<open>
  When the link is none of the other elements the script listens on and the menu is
  closed already, the click changes nothing.
\<close>

lemma click_on_mobile_nav_link_again:
  assumes "listeners s = listener_table pg"
      and "mobileMenu pg = Some m"
      and "etype ev = Click" and "etarget ev = Elem l"
      and "mobileBtn pg \<noteq> Some l" "l \<notin> set (navLinks pg)" "l \<notin> set (deliveryBtns pg)"
        "franchiseBtn pg \<noteq> Some l"
      and "classList_contains m ''hidden'' s" "animation (elems s m) = ''''"
  shows "dispatch pg ev s = Inr s"
proof -
  have skip: "filter (\<lambda>x. fst x = Elem l \<and> fst (snd x) = Click)
      (map (\<lambda>n. (Elem n, Click, h)) ns) = []" if "l \<notin> set ns" for h ns
    using that no_match_in_map [of ev ns Click h] assms(3,4) by (auto simp: image_iff)
  have f: "filter (\<lambda>x. fst x = Elem l \<and> fst (snd x) = Click) (listener_table pg)
      = filter (\<lambda>x. fst x = Elem l \<and> fst (snd x) = Click)
          (map (\<lambda>n. (Elem n, Click, MobileNavLinkClick)) (mobileNavLinks pg))"
    using assms(5-8)
    by (cases "mobileBtn pg"; cases "heroDiv pg"; cases "franchiseBtn pg")
       (simp_all add: listener_table_def skip assms(2))
  have again: "run_listeners pg ev (map (\<lambda>n. (Elem n, Click, MobileNavLinkClick)) ns) s = Inr s"
    for ns
    using assms(2,3,4) mobileNavLink_click_fix [OF assms(9,10)]
    by (induction ns) (simp_all add: mobileNavLink_click_eq)
  have "dispatch pg ev s
      = run_listeners pg ev (map (\<lambda>n. (Elem n, Click, MobileNavLinkClick)) (mobileNavLinks pg)) s"
    unfolding dispatch_def assms(1)
    by (subst run_listeners_filter, subst (2) run_listeners_filter) (simp add: assms(3,4) f)
  with again show ?thesis by simp
qed

section \<open>The mobile nav links close the menu\<close>

text \<open>
  Claim C7. On a page with a mobile menu, in every state reached after the script, a
  click on any mobile nav link runs the listener the script registered on it and leaves
  the menu with \<open>hidden\<close> and with the empty string as inline animation, whatever the
  menu was before. A second click leaves the menu so again, and changes nothing at all
  when the link is none of the other elements the script listens on. The listener itself,
  run in any state, closes the menu, and run again returns the same state.
\<close>

theorem mobileNavLink_click_closes:
  assumes "mobileMenu pg = Some m" and "l \<in> set (mobileNavLinks pg)"
      and "script pg d = Inr s0" and "run pg evs s0 = Inr s"
      and "etype ev = Click" and "etarget ev = Elem l"
  shows "(Elem l, Click, MobileNavLinkClick) \<in> set (listeners s)
     \<and> (\<exists>s'. dispatch pg ev s = Inr s'
          \<and> classList_contains m ''hidden'' s' \<and> animation (elems s' m) = ''''
          \<and> (\<exists>s''. dispatch pg ev s' = Inr s''
                \<and> classList_contains m ''hidden'' s'' \<and> animation (elems s'' m) = '''')
          \<and> (mobileBtn pg \<noteq> Some l \<and> l \<notin> set (navLinks pg) \<and> l \<notin> set (deliveryBtns pg)
                \<and> franchiseBtn pg \<noteq> Some l
              \<longrightarrow> dispatch pg ev s' = Inr s'))
     \<and> (\<exists>t'. mobileNavLink_click pg (Elem l) t = Inr t'
          \<and> classList_contains m ''hidden'' t' \<and> animation (elems t' m) = ''''
          \<and> mobileNavLink_click pg (Elem l) t' = Inr t')"
proof (intro conjI)
  from assms(3) have "listeners s0 = listener_table pg"
    by (auto simp: script_eq)
  with run_keep [OF assms(4)] have ls: "listeners s = listener_table pg"
    by simp
  from assms(2) show "(Elem l, Click, MobileNavLinkClick) \<in> set (listeners s)"
    by (simp add: ls listener_table_def)
  from click_on_mobile_nav_link [OF ls assms(1,2,5,6)] obtain s' where
    1: "dispatch pg ev s = Inr s'" "listeners s' = listener_table pg"
      "classList_contains m ''hidden'' s'" "animation (elems s' m) = ''''"
    by (elim exE conjE)
  from click_on_mobile_nav_link [OF 1(2) assms(1,2,5,6)] obtain s'' where
    2: "dispatch pg ev s' = Inr s''"
      "classList_contains m ''hidden'' s''" "animation (elems s'' m) = ''''"
    by (elim exE conjE)
  have 3: "dispatch pg ev s' = Inr s'"
    if "mobileBtn pg \<noteq> Some l \<and> l \<notin> set (navLinks pg) \<and> l \<notin> set (deliveryBtns pg)
          \<and> franchiseBtn pg \<noteq> Some l"
    using that click_on_mobile_nav_link_again [OF 1(2) assms(1,5,6) _ _ _ _ 1(3,4)] by simp
  from 1 2 3 show "\<exists>s'. dispatch pg ev s = Inr s'
          \<and> classList_contains m ''hidden'' s' \<and> animation (elems s' m) = ''''
          \<and> (\<exists>s''. dispatch pg ev s' = Inr s''
                \<and> classList_contains m ''hidden'' s'' \<and> animation (elems s'' m) = '''')
          \<and> (mobileBtn pg \<noteq> Some l \<and> l \<notin> set (navLinks pg) \<and> l \<notin> set (deliveryBtns pg)
                \<and> franchiseBtn pg \<noteq> Some l
              \<longrightarrow> dispatch pg ev s' = Inr s')"
    by (intro exI [of _ s'] conjI impI exI [of _ s'']) simp_all
  show "\<exists>t'. mobileNavLink_click pg (Elem l) t = Inr t'
          \<and> classList_contains m ''hidden'' t' \<and> animation (elems t' m) = ''''
          \<and> mobileNavLink_click pg (Elem l) t' = Inr t'"
    using closed_after_mobileNavLink_click [of m t]
    by (simp add: mobileNavLink_click_eq [OF assms(1)] mobileNavLink_click_fix)
qed

theorem mobileNavLink_click_closes_witness:
  "mobileMenu sample_page = Some 11 \<and> 14 \<in> set (mobileNavLinks sample_page)
   \<and> returns (\<lambda>s0. returns (\<lambda>s. \<not> classList_contains 11 ''hidden'' s
          \<and> (Elem 14, Click, MobileNavLinkClick) \<in> set (listeners s)
          \<and> returns (\<lambda>s'. classList_contains 11 ''hidden'' s' \<and> animation (elems s' 11) = ''''
                 \<and> dispatch sample_page (click_on 14) s' = Inr s')
               (dispatch sample_page (click_on 14) s))
        (run sample_page [click_on 10] s0))
      (script sample_page sample_doc)
   \<and> \<not> classList_contains 11 ''hidden'' (state_of open_doc)
   \<and> returns (\<lambda>t'. classList_contains 11 ''hidden'' t' \<and> animation (elems t' 11) = ''''
          \<and> mobileNavLink_click sample_page (Elem 14) t' = Inr t')
        (mobileNavLink_click sample_page (Elem 14) (state_of open_doc))"
proof -
  define s0 where
    "s0 = \<lparr>elems = patched sample_page sample_doc, listeners = listener_table sample_page,
       alerts = []\<rparr>"
  define s1 where "s1 = set_animation 11 ''fadeIn 0.25s ease'' (classList_toggle 11 ''hidden'' s0)"
  have m: "mobileMenu sample_page = Some 11" and l: "14 \<in> set (mobileNavLinks sample_page)"
    and other: "mobileBtn sample_page \<noteq> Some 14 \<and> 14 \<notin> set (navLinks sample_page)
      \<and> 14 \<notin> set (deliveryBtns sample_page) \<and> franchiseBtn sample_page \<noteq> Some 14"
    by (simp_all add: sample_page_def)
  have ev: "etype (click_on 14) = Click" "etarget (click_on 14) = Elem 14"
    by (simp_all add: click_on_def)
  have sc: "script sample_page sample_doc = Inr s0"
    by (simp add: script_eq s0_def)
  have l0: "listeners s0 = listener_table sample_page"
    by (simp add: s0_def)
  have hid0: "classList_contains 11 ''hidden'' s0"
    by (simp add: s0_def classList_contains_def patched_def sample_defs)
  have "dispatch sample_page (click_on 10) s0 = mobileBtn_click sample_page s0"
    by (rule dispatch_hamburger [OF l0]) (simp_all add: sample_page_def)
  then have r: "run sample_page [click_on 10] s0 = Inr s1"
    by (simp add: mobileBtn_click_eq [OF m] hid0 s1_def)
  have open1: "\<not> classList_contains 11 ''hidden'' s1"
    by (simp add: s1_def hidden_after_toggle hid0)
  note th = mobileNavLink_click_closes [OF m l sc r ev, of "state_of open_doc"]
  from th have reg: "(Elem 14, Click, MobileNavLinkClick) \<in> set (listeners s1)"
    by (rule conjunct1)
  from th [THEN conjunct2, THEN conjunct1] obtain s' where
    d: "dispatch sample_page (click_on 14) s1 = Inr s'"
    and c: "classList_contains 11 ''hidden'' s'" "animation (elems s' 11) = ''''"
    and again: "mobileBtn sample_page \<noteq> Some 14 \<and> 14 \<notin> set (navLinks sample_page)
        \<and> 14 \<notin> set (deliveryBtns sample_page) \<and> franchiseBtn sample_page \<noteq> Some 14
      \<longrightarrow> dispatch sample_page (click_on 14) s' = Inr s'"
    by (elim exE conjE) (rule that; assumption)
  from again other have "dispatch sample_page (click_on 14) s' = Inr s'"
    by (rule mp)
  with d c open1 reg have "\<not> classList_contains 11 ''hidden'' s1
          \<and> (Elem 14, Click, MobileNavLinkClick) \<in> set (listeners s1)
          \<and> returns (\<lambda>s'. classList_contains 11 ''hidden'' s' \<and> animation (elems s' 11) = ''''
                 \<and> dispatch sample_page (click_on 14) s' = Inr s')
               (dispatch sample_page (click_on 14) s1)"
    by (simp only: returns_def sum.case simp_thms)
  then have 1: "returns (\<lambda>s0. returns (\<lambda>s. \<not> classList_contains 11 ''hidden'' s
          \<and> (Elem 14, Click, MobileNavLinkClick) \<in> set (listeners s)
          \<and> returns (\<lambda>s'. classList_contains 11 ''hidden'' s' \<and> animation (elems s' 11) = ''''
                 \<and> dispatch sample_page (click_on 14) s' = Inr s')
               (dispatch sample_page (click_on 14) s))
        (run sample_page [click_on 10] s0))
      (script sample_page sample_doc)"
    by (simp only: sc r returns_Inr simp_thms)
  have o: "\<not> classList_contains 11 ''hidden'' (state_of open_doc)"
    by (simp add: classList_contains_def state_of_def open_doc_def blank_def)
  from th [THEN conjunct2, THEN conjunct2]
  have 2: "returns (\<lambda>t'. classList_contains 11 ''hidden'' t' \<and> animation (elems t' 11) = ''''
          \<and> mobileNavLink_click sample_page (Elem 14) t' = Inr t')
        (mobileNavLink_click sample_page (Elem 14) (state_of open_doc))"
    by (elim exE conjE) (simp add: returns_def)
  from m l 1 o 2 show ?thesis by (intro conjI)
qed

section \<open>The footer year\<close>

lemma replace_absent:
  "\<not> sublist pat s \<Longrightarrow> replace s pat rep = s"
proof (induction s)
  case Nil
  then show ?case by (cases pat) simp_all
next
  case (Cons c cs)
  then show ?case by (auto simp: sublist_Cons_right)
qed

lemma prefix_of_long_front:
  "prefix p (xs @ ys) \<Longrightarrow> length p \<le> length xs \<Longrightarrow> prefix p xs"
  by (auto simp: prefix_append)

lemma replace_first:
  assumes "pat \<noteq> []" and "\<not> sublist pat (pre @ butlast pat)"
  shows "replace (pre @ pat @ post) pat rep = pre @ rep @ post"
  using assms(2)
proof (induction pre)
  case Nil
  from assms(1) obtain p ps where "pat = p # ps" by (cases pat) auto
  then show ?case by simp
next
  case (Cons a pre)
  have split: "a # pre @ pat @ post = (a # pre @ butlast pat) @ ([last pat] @ post)"
    using assms(1) by simp
  have "\<not> prefix pat (a # pre @ pat @ post)"
  proof
    assume "prefix pat (a # pre @ pat @ post)"
    then have "prefix pat ((a # pre @ butlast pat) @ ([last pat] @ post))"
      by (simp only: split)
    moreover have "length pat \<le> length (a # pre @ butlast pat)"
      by simp
    ultimately have "prefix pat (a # pre @ butlast pat)"
      by (rule prefix_of_long_front)
    with Cons.prems show False
      by (auto dest: prefix_imp_sublist)
  qed
  moreover from Cons.prems have "\<not> sublist pat (pre @ butlast pat)"
    by (auto simp: sublist_Cons_right)
  ultimately show ?case
    using Cons.IH by simp
qed

text \<open>
  Claim C8. On a page with a footer paragraph, the script replaces the first occurrence of
  \<open>2024\<close> in the paragraph's HTML by the decimal text of the current year and keeps
  what stands before and after it, later occurrences included; HTML without \<open>2024\<close>
  stays as it is; and no event changes the paragraph's HTML afterwards.
\<close>

theorem footer_year_patch:
  assumes "footerYearSpan pg = Some f"
  shows "\<exists>s. script pg d = Inr s
     \<and> (\<forall>pre post. innerHTML (d f) = pre @ ''2024'' @ post \<and> \<not> sublist ''2024'' (pre @ ''202'')
          \<longrightarrow> innerHTML (elems s f) = pre @ number_to_string (currentYear pg) @ post)
     \<and> (\<not> sublist ''2024'' (innerHTML (d f)) \<longrightarrow> innerHTML (elems s f) = innerHTML (d f))
     \<and> (\<forall>evs s'. run pg evs s = Inr s' \<longrightarrow> innerHTML (elems s' f) = innerHTML (elems s f))"
proof -
  let ?s = "\<lparr>elems = patched pg d, listeners = listener_table pg, alerts = []\<rparr>"
  have html: "innerHTML (patched pg d f)
      = replace (innerHTML (d f)) ''2024'' (number_to_string (currentYear pg))"
    using assms by (simp add: patched_def Let_def)
  have first: "innerHTML (patched pg d f) = pre @ number_to_string (currentYear pg) @ post"
    if "innerHTML (d f) = pre @ ''2024'' @ post" "\<not> sublist ''2024'' (pre @ ''202'')"
    for pre post
  proof -
    have "replace (pre @ ''2024'' @ post) ''2024'' (number_to_string (currentYear pg))
        = pre @ number_to_string (currentYear pg) @ post"
      using that(2) by (intro replace_first) simp_all
    with that(1) show ?thesis
      by (simp add: html)
  qed
  have none: "innerHTML (patched pg d f) = innerHTML (d f)"
    if "\<not> sublist ''2024'' (innerHTML (d f))"
    using that by (simp add: html replace_absent)
  have later: "innerHTML (elems s' f) = innerHTML (patched pg d f)" if "run pg evs ?s = Inr s'"
    for evs s'
    using run_keep [OF that, of f] by simp
  have "script pg d = Inr ?s"
    by (rule script_eq)
  moreover have "elems ?s f = patched pg d f"
    by simp
  ultimately show ?thesis
    using first none later by (intro exI [of _ ?s]) auto
qed

theorem footer_year_patch_witness:
  "footerYearSpan sample_page = Some 18
   \<and> innerHTML (sample_doc 18) = ''&copy; '' @ ''2024'' @ '' Popper Poi. Est. 2024''
   \<and> \<not> sublist ''2024'' (''&copy; '' @ ''202'')
   \<and> returns (\<lambda>s. innerHTML (elems s 18) = ''&copy; 2026 Popper Poi. Est. 2024'')
        (script sample_page sample_doc)
   \<and> \<not> sublist ''2024'' (innerHTML (open_doc 17))
   \<and> returns (\<lambda>s. innerHTML (elems s 17) = innerHTML (open_doc 17))
        (script (sample_page\<lparr>footerYearSpan := Some 17\<rparr>) open_doc)"
proof -
  let ?pg = "sample_page\<lparr>footerYearSpan := Some 17\<rparr>"
  have f: "footerYearSpan sample_page = Some 18" and f': "footerYearSpan ?pg = Some 17"
    and y: "number_to_string (currentYear sample_page) = ''2026''"
    by (simp_all add: sample_page_def number_to_string_def)
  have h: "innerHTML (sample_doc 18) = ''&copy; '' @ ''2024'' @ '' Popper Poi. Est. 2024''"
    by (simp add: sample_defs)
  have n: "\<not> sublist ''2024'' (''&copy; '' @ ''202'')"
    by (simp add: sublist_Cons_right)
  have n': "\<not> sublist ''2024'' (innerHTML (open_doc 17))"
    by (simp add: sample_defs)
  from footer_year_patch [OF f, of sample_doc] obtain s where
    s: "script sample_page sample_doc = Inr s"
    and first: "\<And>pre post. innerHTML (sample_doc 18) = pre @ ''2024'' @ post
          \<Longrightarrow> \<not> sublist ''2024'' (pre @ ''202'')
          \<Longrightarrow> innerHTML (elems s 18) = pre @ number_to_string (currentYear sample_page) @ post"
    by (elim exE conjE) (rule that, assumption, simp)
  from first [OF h n] have "innerHTML (elems s 18) = ''&copy; 2026 Popper Poi. Est. 2024''"
    by (simp add: y)
  with s have 1: "returns (\<lambda>s. innerHTML (elems s 18) = ''&copy; 2026 Popper Poi. Est. 2024'')
        (script sample_page sample_doc)"
    by (simp add: returns_def)
  from footer_year_patch [OF f', of open_doc] n'
  have 2: "returns (\<lambda>s. innerHTML (elems s 17) = innerHTML (open_doc 17))
        (script ?pg open_doc)"
    by (elim exE conjE) (simp add: returns_def)
  from f h n 1 n' 2 show ?thesis by (intro conjI)
qed

section \<open>The touch block\<close>

text \<open>
  Claim C9. After the script, the hero image's mouse move listener is registered exactly
  when the hero image exists and the \<open>(hover: hover)\<close> query matched. The function
  handed to \<open>removeEventListener\<close> is none of the registered ones, so the listener table
  is the same whether or not \<open>ontouchstart\<close> is in the window.
\<close>

theorem touch_block_removes_nothing:
  "\<exists>s s'. script pg d = Inr s
     \<and> ((Elem h, MouseMove, HeroMouseMove) \<in> set (listeners s))
         = (heroDiv pg = Some h \<and> hoverMatches pg)
     \<and> script (pg\<lparr>ontouchstart := \<not> ontouchstart pg\<rparr>) d = Inr s'
     \<and> listeners s' = listeners s"
proof -
  have "((Elem h, MouseMove, HeroMouseMove) \<in> set (listener_table pg))
      = (heroDiv pg = Some h \<and> hoverMatches pg)"
    by (cases "mobileBtn pg"; cases "mobileMenu pg"; cases "heroDiv pg"; cases "franchiseBtn pg")
       (auto simp: listener_table_def)
  moreover have "listener_table (pg\<lparr>ontouchstart := \<not> ontouchstart pg\<rparr>) = listener_table pg"
    by (cases "mobileBtn pg"; cases "heroDiv pg") (simp_all add: listener_table_def)
  ultimately show ?thesis
    unfolding script_eq by simp
qed

theorem touch_block_removes_nothing_witness:
  "ontouchstart (sample_page\<lparr>ontouchstart := True\<rparr>)
   \<and> returns (\<lambda>s. (Elem 17, MouseMove, HeroMouseMove) \<in> set (listeners s)
         \<and> boxShadow (elems s 17) = Touch)
       (script (sample_page\<lparr>ontouchstart := True\<rparr>) sample_doc)"
proof -
  let ?pg = "sample_page\<lparr>ontouchstart := True\<rparr>"
  have a: "heroDiv ?pg = Some 17" "hoverMatches ?pg" "ontouchstart ?pg"
    by (simp_all add: sample_page_def)
  from touch_block_removes_nothing [of ?pg sample_doc 17] a
  have "returns (\<lambda>s. (Elem 17, MouseMove, HeroMouseMove) \<in> set (listeners s))
       (script ?pg sample_doc)"
    by (elim exE conjE) (simp add: returns_def)
  moreover have "returns (\<lambda>s. boxShadow (elems s 17) = Touch) (script ?pg sample_doc)"
    by (simp add: script_eq returns_def patched_def sample_page_def)
  ultimately have "returns (\<lambda>s. (Elem 17, MouseMove, HeroMouseMove) \<in> set (listeners s)
         \<and> boxShadow (elems s 17) = Touch) (script ?pg sample_doc)"
    by (cases "script ?pg sample_doc") (simp_all add: returns_def)
  with a show ?thesis by (intro conjI)
qed

section \<open>Hidden menu, empty animation\<close>

lemma menu_invariant_kept:
  assumes "mobileMenu pg = Some m"
      and "classList_contains m ''hidden'' s \<longrightarrow> animation (elems s m) = ''''"
  shows "returns (\<lambda>s'. classList_contains m ''hidden'' s' \<longrightarrow> animation (elems s' m) = '''')
           (mobileBtn_click pg s)"
    and "returns (\<lambda>s'. classList_contains m ''hidden'' s' \<longrightarrow> animation (elems s' m) = '''')
           (mobileNavLink_click pg (Elem l) s)"
    and "returns (\<lambda>s'. classList_contains m ''hidden'' s' \<longrightarrow> animation (elems s' m) = '''')
           (window_resize pg w s)"
  using assms
  by (simp_all add: returns_def mobileBtn_click_def mobileNavLink_click_def window_resize_def
      prim_defs)

text \<open>
  Claim C10. The menu starts hidden with an empty inline animation. One hamburger click
  opens it and sets the animation; the load listener then adds \<open>hidden\<close> and, unlike
  the resize listener and the mobile nav link listener, does not clear the animation. The
  menu ends hidden with the animation \<open>fadeIn 0.25s ease\<close>.
\<close>

theorem load_after_click_keeps_animation:
  "classList_contains 11 ''hidden'' (state_of sample_doc)
   \<and> animation (sample_doc 11) = ''''
   \<and> returns (\<lambda>s. classList_contains 11 ''hidden'' s
         \<and> animation (elems s 11) = ''fadeIn 0.25s ease'')
       (then_do (script sample_page sample_doc)
          (run sample_page [click_on 10, content_loaded]))"
proof -
  define s0 where
    "s0 = \<lparr>elems = patched sample_page sample_doc, listeners = listener_table sample_page,
       alerts = []\<rparr>"
  define s1 where "s1 = set_animation 11 ''fadeIn 0.25s ease'' (classList_toggle 11 ''hidden'' s0)"
  have m: "mobileMenu sample_page = Some 11" and h: "homeLink sample_page = Some 12"
    by (simp_all add: sample_page_def)
  have l0: "listeners s0 = listener_table sample_page"
    by (simp add: s0_def)
  have l1: "listeners s1 = listener_table sample_page"
    by (simp add: s1_def l0)
  have hid0: "classList_contains 11 ''hidden'' s0"
    by (simp add: s0_def classList_contains_def patched_def sample_defs)
  have c0: "dispatch sample_page (click_on 10) s0 = mobileBtn_click sample_page s0"
    by (rule dispatch_hamburger [OF l0]) (simp_all add: sample_page_def)
  have c1: "mobileBtn_click sample_page s0 = Inr s1"
    by (simp add: mobileBtn_click_eq [OF m] hid0 s1_def)
  have d1: "dispatch sample_page content_loaded s1 = window_DOMContentLoaded sample_page s1"
    by (rule dispatch_load [OF l1]) (simp_all add: content_loaded_def)
  have open1: "\<not> classList_contains 11 ''hidden'' s1"
    by (simp add: s1_def hidden_after_toggle hid0)
  have a1: "animation (elems s1 11) = ''fadeIn 0.25s ease''"
    by (simp add: s1_def prim_defs)
  have d2: "window_DOMContentLoaded sample_page s1
      = Inr (classList_add 12 ''active-nav''
          (removeActiveClass sample_page (classList_add 11 ''hidden'' s1)))"
    by (simp add: window_DOMContentLoaded_def m h open1)
  have n: "navLinks sample_page = [12, 13]"
    by (simp add: sample_page_def)
  have fin: "returns (\<lambda>s. classList_contains 11 ''hidden'' s
         \<and> animation (elems s 11) = ''fadeIn 0.25s ease'')
       (then_do (script sample_page sample_doc)
          (run sample_page [click_on 10, content_loaded]))"
    unfolding script_eq s0_def [symmetric]
    by (simp add: c0 c1 d1 d2 returns_def)
       (simp add: prim_defs removeActiveClass_elems n a1 [unfolded prim_defs])
  have "classList_contains 11 ''hidden'' (state_of sample_doc)" "animation (sample_doc 11) = ''''"
    by (simp_all add: classList_contains_def sample_defs)
  with fin show ?thesis by (intro conjI)
qed

end
